theory Spec2Isabelle
  imports Main "HOL-Library.Word" "HOL-Library.Multiset"
begin

section \<open>The wallet service of Nappy-Says/wallet\<close>

text \<open>
  The Go package \<^verbatim>\<open>wallet\<close> keeps accounts, payments and favorites in three slices of
  pointers owned by one \<^verbatim>\<open>Service\<close> value. Every element of a slice is allocated by the
  \<^verbatim>\<open>append\<close> that adds it, so no two slots alias; a slice of pointers is modelled as a list
  of records, a pointer into it as the index of its slot, and a write through the pointer
  as a list update at that index. Each operation takes the service state and returns its
  result together with the state it leaves behind.
\<close>

subsection \<open>Data model\<close>

text \<open>
  Modelled from the spec: package \<^verbatim>\<open>types\<close> (Account, Payment, Favorite, Money, Phone,
  PaymentCategory, PaymentStatus and the two status constants) is imported by the source
  but is not among the source files. The spec (section 3) gives the fields; the source fixes
  \<^verbatim>\<open>Account.ID\<close> and \<^verbatim>\<open>Payment.AccountID\<close> to \<^verbatim>\<open>int64\<close>, converts \<^verbatim>\<open>Money\<close> from and to \<^verbatim>\<open>int64\<close>,
  and converts \<^verbatim>\<open>Phone\<close>, \<^verbatim>\<open>PaymentCategory\<close> and \<^verbatim>\<open>PaymentStatus\<close> from and to \<^verbatim>\<open>string\<close>.
  \<^verbatim>\<open>Money\<close> is therefore a signed 64-bit integer whose arithmetic wraps around, and the
  three string types are byte strings. Field names of Payment and Favorite that would
  clash with those of Account carry a prefix.
\<close>

type_synonym int64 = "64 word"
type_synonym Money = int64
type_synonym Phone = string
type_synonym PaymentCategory = string
type_synonym PaymentStatus = string

record account =
  ID :: int64
  Phone :: Phone
  Balance :: Money

record payment =
  PaymentID :: string
  AccountID :: int64
  Amount :: Money
  Category :: PaymentCategory
  Status :: PaymentStatus

record favorite =
  FavoriteID :: string
  FavAccountID :: int64
  Name :: string
  FavAmount :: Money
  FavCategory :: PaymentCategory

text \<open>
  Modelled from the spec: the two status constants of package \<^verbatim>\<open>types\<close>. The spec names
  the states InProgress and Fail; only that they are two different strings matters here.
\<close>

definition PaymentStatusInProgress :: PaymentStatus where
  "PaymentStatusInProgress = ''INPROGRESS''"

definition PaymentStatusFail :: PaymentStatus where
  "PaymentStatusFail = ''FAIL''"

record service =
  nextAccountID :: int64
  accounts :: "account list"
  payments :: "payment list"
  favorites :: "favorite list"

text \<open>The zero value \<^verbatim>\<open>&wallet.Service{}\<close> that \<^verbatim>\<open>main\<close> starts from.\<close>

definition empty_service :: service where
  "empty_service = \<lparr>nextAccountID = 0, accounts = [], payments = [], favorites = []\<rparr>"

text \<open>
  The error values of the package, the two kinds of \<^verbatim>\<open>*strconv.NumError\<close> that
  \<^verbatim>\<open>Atoi\<close> and \<^verbatim>\<open>ParseInt\<close> return (with the rejected input), the error of
  \<^verbatim>\<open>ioutil.ReadFile\<close>, and the run-time panic of an index or slice bound out of range.
\<close>

datatype error =
    ErrPhoneRegistered
  | ErrAmountMustBePositive
  | ErrAccountNotFound
  | ErrNotEnoughtBalance
  | ErrPaymentNotFound
  | ErrFavoriteNotFound
  | ErrFileNotFound
  | ErrSyntax string
  | ErrRange string
  | ErrReadFile
  | PanicOutOfRange

subsection \<open>Registration\<close>

text \<open>The scan of \<^verbatim>\<open>RegisterAccount\<close>: does some account already carry the phone?\<close>

fun phone_registered :: "account list \<Rightarrow> Phone \<Rightarrow> bool" where
  "phone_registered [] phone = False"
| "phone_registered (a # as) phone = (if Phone a = phone then True else phone_registered as phone)"

definition RegisterAccount :: "service \<Rightarrow> Phone \<Rightarrow> (error + account) \<times> service" where
  "RegisterAccount s phone =
     (if phone_registered (accounts s) phone then (Inl ErrPhoneRegistered, s)
      else
        let s1 = s\<lparr>nextAccountID := nextAccountID s + 1\<rparr>;
            acc = \<lparr>ID = nextAccountID s1, Phone = phone, Balance = 0\<rparr>
        in (Inr acc, s1\<lparr>accounts := accounts s1 @ [acc]\<rparr>))"

subsection \<open>Lookups\<close>

text \<open>
  \<^verbatim>\<open>FindAccountByID\<close> (and the same loop inlined in \<^verbatim>\<open>Pay\<close>) stops at the first match;
  the second argument counts the slots already passed, so the result is the slot found.
\<close>

fun find_account_from :: "account list \<Rightarrow> nat \<Rightarrow> int64 \<Rightarrow> nat option" where
  "find_account_from [] i accountID = None"
| "find_account_from (a # as) i accountID =
     (if ID a = accountID then Some i else find_account_from as (Suc i) accountID)"

definition FindAccountByID :: "service \<Rightarrow> int64 \<Rightarrow> error + nat" where
  "FindAccountByID s accountID =
     (case find_account_from (accounts s) 0 accountID of
        None \<Rightarrow> Inl ErrAccountNotFound
      | Some i \<Rightarrow> Inr i)"

text \<open>
  \<^verbatim>\<open>FindPaymentByID\<close> has no \<^verbatim>\<open>break\<close>: the loop runs to the end and every match
  overwrites the one remembered so far.
\<close>

fun find_payment_from :: "payment list \<Rightarrow> nat \<Rightarrow> string \<Rightarrow> nat option \<Rightarrow> nat option" where
  "find_payment_from [] i paymentID found = found"
| "find_payment_from (p # ps) i paymentID found =
     find_payment_from ps (Suc i) paymentID (if PaymentID p = paymentID then Some i else found)"

definition FindPaymentByID :: "service \<Rightarrow> string \<Rightarrow> error + nat" where
  "FindPaymentByID s paymentID =
     (case find_payment_from (payments s) 0 paymentID None of
        None \<Rightarrow> Inl ErrPaymentNotFound
      | Some i \<Rightarrow> Inr i)"

text \<open>Reading through a pointer returned by a lookup.\<close>

definition account_at :: "service \<Rightarrow> nat \<Rightarrow> account" where
  "account_at s i = accounts s ! i"

definition payment_at :: "service \<Rightarrow> nat \<Rightarrow> payment" where
  "payment_at s i = payments s ! i"

subsection \<open>Pay, Deposit, Reject\<close>

text \<open>
  \<^verbatim>\<open>Pay\<close> draws the payment ID from \<^verbatim>\<open>uuid.New().String()\<close>, an external generator;
  the string it hands out is the argument \<open>paymentID\<close>. The comparisons are those of
  Go's signed \<^verbatim>\<open>int64\<close>.
\<close>

definition Pay :: "service \<Rightarrow> string \<Rightarrow> int64 \<Rightarrow> Money \<Rightarrow> PaymentCategory \<Rightarrow> (error + payment) \<times> service" where
  "Pay s paymentID accountID amount category =
     (if amount <=s 0 then (Inl ErrAmountMustBePositive, s)
      else case find_account_from (accounts s) 0 accountID of
        None \<Rightarrow> (Inl ErrAccountNotFound, s)
      | Some i \<Rightarrow>
          let account = accounts s ! i in
          if Balance account <s amount then (Inl ErrNotEnoughtBalance, s)
          else
            let s1 = s\<lparr>accounts := (accounts s)[i := account\<lparr>Balance := Balance account - amount\<rparr>]\<rparr>;
                pay = \<lparr>PaymentID = paymentID, AccountID = accountID, Amount = amount,
                       Category = category, Status = PaymentStatusInProgress\<rparr>
            in (Inr pay, s1\<lparr>payments := payments s1 @ [pay]\<rparr>))"

definition Deposit :: "service \<Rightarrow> int64 \<Rightarrow> Money \<Rightarrow> error option \<times> service" where
  "Deposit s accountID amount =
     (if amount <s 0 then (Some ErrAmountMustBePositive, s)
      else case FindAccountByID s accountID of
        Inl e \<Rightarrow> (Some e, s)
      | Inr i \<Rightarrow>
          let account = account_at s i
          in (None, s\<lparr>accounts := (accounts s)[i := account\<lparr>Balance := Balance account + amount\<rparr>]\<rparr>))"

definition Reject :: "service \<Rightarrow> string \<Rightarrow> error option \<times> service" where
  "Reject s paymentID =
     (case FindPaymentByID s paymentID of
        Inl e \<Rightarrow> (Some e, s)
      | Inr j \<Rightarrow>
          let pay = payment_at s j in
          (case FindAccountByID s (AccountID pay) of
             Inl e \<Rightarrow> (Some e, s)
           | Inr i \<Rightarrow>
               let acc = account_at s i;
                   s1 = s\<lparr>payments := (payments s)[j := pay\<lparr>Status := PaymentStatusFail\<rparr>]\<rparr>
               in (None, s1\<lparr>accounts := (accounts s1)[i := acc\<lparr>Balance := Balance acc + Amount pay\<rparr>]\<rparr>)))"

subsection \<open>Sequences of operations\<close>

text \<open>
  A caller that applies \<^verbatim>\<open>Pay\<close>, \<^verbatim>\<open>Deposit\<close> and \<^verbatim>\<open>Reject\<close> one after the other, ignoring the
  errors: each call leaves the state the next one starts from.
\<close>

datatype op =
    OpPay string int64 Money PaymentCategory
  | OpDeposit int64 Money
  | OpReject string

fun step :: "service \<Rightarrow> op \<Rightarrow> service" where
  "step s (OpPay paymentID accountID amount category) = snd (Pay s paymentID accountID amount category)"
| "step s (OpDeposit accountID amount) = snd (Deposit s accountID amount)"
| "step s (OpReject paymentID) = snd (Reject s paymentID)"

fun run :: "service \<Rightarrow> op list \<Rightarrow> service" where
  "run s [] = s"
| "run s (x # xs) = run (step s x) xs"

text \<open>
  What one call moves on the account found under the ID \<open>a\<close>: the amount of a \<^verbatim>\<open>Deposit\<close>
  on \<open>a\<close> that succeeds, the amount of a \<^verbatim>\<open>Pay\<close> from \<open>a\<close> that succeeds, the amount of the
  payment that a successful \<^verbatim>\<open>Reject\<close> refunds to \<open>a\<close>; and their sums along a sequence.
\<close>

fun deposit_of :: "service \<Rightarrow> int64 \<Rightarrow> op \<Rightarrow> Money" where
  "deposit_of s a (OpDeposit accountID amount) =
     (if accountID = a \<and> fst (Deposit s accountID amount) = None then amount else 0)"
| "deposit_of s a x = 0"

fun payment_of :: "service \<Rightarrow> int64 \<Rightarrow> op \<Rightarrow> Money" where
  "payment_of s a (OpPay paymentID accountID amount category) =
     (if accountID = a \<and> \<not> isl (fst (Pay s paymentID accountID amount category)) then amount else 0)"
| "payment_of s a x = 0"

fun refund_of :: "service \<Rightarrow> int64 \<Rightarrow> op \<Rightarrow> Money" where
  "refund_of s a (OpReject paymentID) =
     (case FindPaymentByID s paymentID of
        Inl e \<Rightarrow> 0
      | Inr j \<Rightarrow>
          if AccountID (payment_at s j) = a \<and> fst (Reject s paymentID) = None
          then Amount (payment_at s j) else 0)"
| "refund_of s a x = 0"

fun deposited :: "service \<Rightarrow> int64 \<Rightarrow> op list \<Rightarrow> Money" where
  "deposited s a [] = 0"
| "deposited s a (x # xs) = deposit_of s a x + deposited (step s x) a xs"

fun paid :: "service \<Rightarrow> int64 \<Rightarrow> op list \<Rightarrow> Money" where
  "paid s a [] = 0"
| "paid s a (x # xs) = payment_of s a x + paid (step s x) a xs"

fun refunded :: "service \<Rightarrow> int64 \<Rightarrow> op list \<Rightarrow> Money" where
  "refunded s a [] = 0"
| "refunded s a (x # xs) = refund_of s a x + refunded (step s x) a xs"


text \<open>
  The balance as the specification words it: the payments subtracted are only those
  whose ID no successful \<^verbatim>\<open>Reject\<close> of the sequence names.
\<close>

fun rejected_ids :: "service \<Rightarrow> op list \<Rightarrow> string list" where
  "rejected_ids s [] = []"
| "rejected_ids s (OpReject paymentID # xs) =
     (if fst (Reject s paymentID) = None then [paymentID] else [])
       @ rejected_ids (step s (OpReject paymentID)) xs"
| "rejected_ids s (x # xs) = rejected_ids (step s x) xs"

fun paid_never_rejected :: "string list \<Rightarrow> service \<Rightarrow> int64 \<Rightarrow> op list \<Rightarrow> Money" where
  "paid_never_rejected R s a [] = 0"
| "paid_never_rejected R s a (OpPay paymentID accountID amount category # xs) =
     (if paymentID \<in> set R then 0 else payment_of s a (OpPay paymentID accountID amount category))
       + paid_never_rejected R (step s (OpPay paymentID accountID amount category)) a xs"
| "paid_never_rejected R s a (x # xs) = paid_never_rejected R (step s x) a xs"

definition claimed_balance :: "service \<Rightarrow> int64 \<Rightarrow> nat \<Rightarrow> op list \<Rightarrow> Money" where
  "claimed_balance s a i ops =
     Balance (account_at s i) + deposited s a ops
       - paid_never_rejected (rejected_ids s ops) s a ops + refunded s a ops"

text \<open>Concrete sequences, and the service left by one payment of 100.\<close>

definition pay_then_reject :: "op list" where
  "pay_then_reject = [OpPay ''p1'' 1 100 ''food'', OpReject ''p1'']"

definition deposit_pay_reject_twice :: "op list" where
  "deposit_pay_reject_twice =
     [OpDeposit 1 50, OpPay ''p1'' 1 100 ''food'', OpReject ''p1'', OpReject ''p1'']"

definition paid_service :: service where
  "paid_service = \<lparr>nextAccountID = 1, accounts = [\<lparr>ID = 1, Phone = ''+1'', Balance = 0\<rparr>],
       payments = [\<lparr>PaymentID = ''p1'', AccountID = 1, Amount = 100, Category = ''food'',
           Status = PaymentStatusInProgress\<rparr>], favorites = []\<rparr>"


subsection \<open>SumPayments\<close>

text \<open>
  Go's \<^verbatim>\<open>/\<close> on integers truncates towards zero; a zero divisor panics, which the
  source rules out by testing \<^verbatim>\<open>goroutines == 0\<close> first.
\<close>

definition go_quot :: "int \<Rightarrow> int \<Rightarrow> int" where
  "go_quot a b = (if (a < 0) = (b < 0) then \<bar>a\<bar> div \<bar>b\<bar> else - (\<bar>a\<bar> div \<bar>b\<bar>))"

text \<open>
  The slice expression \<^verbatim>\<open>xs[lo:hi]\<close>; \<^verbatim>\<open>xs[lo:]\<close> is \<^verbatim>\<open>xs[lo:len(xs)]\<close>. A bound out of
  range panics. (Go checks \<^verbatim>\<open>hi\<close> against the capacity; the slots between length and
  capacity of a slice grown by \<^verbatim>\<open>append\<close> hold nil pointers, whose \<^verbatim>\<open>Amount\<close> panics too.)
\<close>

definition go_slice :: "'a list \<Rightarrow> int \<Rightarrow> int \<Rightarrow> error + 'a list" where
  "go_slice xs lo hi =
     (if 0 \<le> lo \<and> lo \<le> hi \<and> hi \<le> int (length xs)
      then Inr (take (nat (hi - lo)) (drop (nat lo) xs))
      else Inl PanicOutOfRange)"

text \<open>
  The loop \<^verbatim>\<open>for i = 0; i < goroutines-1; i++\<close> hands the slice \<^verbatim>\<open>[i*kol : (i+1)*kol]\<close> to a
  new goroutine; the goroutine started after the loop takes \<^verbatim>\<open>[i*kol:]\<close> with the \<open>i\<close> the
  loop stopped at. The result lists the slices in the order of their workers; a panic of
  any worker ends the program.
\<close>

function worker_chunks :: "payment list \<Rightarrow> int \<Rightarrow> int \<Rightarrow> int \<Rightarrow> error + payment list list" where
  "worker_chunks ps kol bound i =
     (if i < bound then
        (case go_slice ps (i * kol) ((i + 1) * kol) of
           Inl e \<Rightarrow> Inl e
         | Inr chunk \<Rightarrow>
             (case worker_chunks ps kol bound (i + 1) of
                Inl e \<Rightarrow> Inl e
              | Inr chunks \<Rightarrow> Inr (chunk # chunks)))
      else
        (case go_slice ps (i * kol) (int (length ps)) of
           Inl e \<Rightarrow> Inl e
         | Inr chunk \<Rightarrow> Inr [chunk]))"
  by pat_completeness auto
termination
  by (relation "measure (\<lambda>(ps, kol, bound, i). nat (bound - i))") auto

declare worker_chunks.simps [simp del]

text \<open>
  The body of a worker (\<^verbatim>\<open>val += int64(payment.Amount)\<close> over its slice), and the additions
  \<^verbatim>\<open>sum += val\<close> under the mutex, in the order the workers get the lock.
\<close>

fun subtotal :: "payment list \<Rightarrow> int64 \<Rightarrow> int64" where
  "subtotal [] val = val"
| "subtotal (p # ps) val = subtotal ps (val + Amount p)"

fun add_all :: "int64 list \<Rightarrow> int64 \<Rightarrow> int64" where
  "add_all [] acc = acc"
| "add_all (val # vals) acc = add_all vals (acc + val)"

text \<open>
  \<^verbatim>\<open>SumPayments\<close>. Go's \<^verbatim>\<open>int\<close> is taken as 64 bits wide, so \<^verbatim>\<open>goroutines - 1\<close> wraps around
  at the least value; the products \<^verbatim>\<open>i*kol\<close> stay below the number of payments. The workers
  run concurrently; the model adds their subtotals in the order of the slices, and the
  theorem on \<^verbatim>\<open>SumPayments\<close> shows that every other order of the additions gives the same sum.
\<close>

definition chunks_of :: "service \<Rightarrow> int64 \<Rightarrow> error + payment list list" where
  "chunks_of s goroutines =
     (let n = int (length (payments s));
          kol = (if goroutines = 0 then n else go_quot n (sint goroutines))
      in worker_chunks (payments s) kol (sint (goroutines - 1)) 0)"

definition SumPayments :: "service \<Rightarrow> int64 \<Rightarrow> error + Money" where
  "SumPayments s goroutines =
     (case chunks_of s goroutines of
        Inl e \<Rightarrow> Inl e
      | Inr chunks \<Rightarrow> Inr (add_all (map (\<lambda>chunk. subtotal chunk 0) chunks) 0))"


subsection \<open>Strings and numbers\<close>

text \<open>
  \<^verbatim>\<open>strings.Split(s, sep)\<close> for a separator of one byte: the pieces between the separators,
  one more than there are separators, so never an empty list.
\<close>

fun split_on :: "char \<Rightarrow> string \<Rightarrow> string list" where
  "split_on sep [] = [[]]"
| "split_on sep (c # cs) =
     (if c = sep then [] # split_on sep cs
      else case split_on sep cs of
          [] \<Rightarrow> [[c]]
        | piece # pieces \<Rightarrow> (c # piece) # pieces)"

text \<open>
  \<^verbatim>\<open>strconv.ParseInt(s, 10, 64)\<close>, which is also what \<^verbatim>\<open>strconv.Atoi\<close> computes where \<^verbatim>\<open>int\<close>
  has 64 bits: an optional sign, then at least one decimal digit and nothing else
  (\<^verbatim>\<open>ErrSyntax\<close> otherwise); the digits are accumulated from the left and the first one that
  takes the value beyond \<open>2^64 - 1\<close> ends the scan with \<^verbatim>\<open>ErrRange\<close>, as does a value outside
  \<open>[-2^63, 2^63)\<close>.
\<close>

fun digit_index :: "char \<Rightarrow> string \<Rightarrow> nat \<Rightarrow> nat option" where
  "digit_index c [] i = None"
| "digit_index c (d # ds) i = (if c = d then Some i else digit_index c ds (Suc i))"

definition digit_val :: "char \<Rightarrow> nat option" where
  "digit_val c = digit_index c ''0123456789'' 0"

datatype num_error = Syntax | Range

fun parse_uint :: "string \<Rightarrow> nat \<Rightarrow> num_error + nat" where
  "parse_uint [] n = Inr n"
| "parse_uint (c # cs) n =
     (case digit_val c of
        None \<Rightarrow> Inl Syntax
      | Some d \<Rightarrow> if n * 10 + d > 2 ^ 64 - 1 then Inl Range else parse_uint cs (n * 10 + d))"

definition ParseInt :: "string \<Rightarrow> error + int64" where
  "ParseInt s =
     (case s of
        [] \<Rightarrow> Inl (ErrSyntax s)
      | c # cs \<Rightarrow>
          let neg = (c = CHR ''-'');
              body = (if c = CHR ''+'' \<or> c = CHR ''-'' then cs else s)
          in if body = [] then Inl (ErrSyntax s)
             else case parse_uint body 0 of
                 Inl Syntax \<Rightarrow> Inl (ErrSyntax s)
               | Inl Range \<Rightarrow> Inl (ErrRange s)
               | Inr un \<Rightarrow>
                   if \<not> neg \<and> un \<ge> 2 ^ 63 then Inl (ErrRange s)
                   else if neg \<and> un > 2 ^ 63 then Inl (ErrRange s)
                   else Inr (if neg then - word_of_nat un else word_of_nat un))"

text \<open>
  \<^verbatim>\<open>strconv.Itoa(int(x))\<close> and \<^verbatim>\<open>fmt.Sprint(x)\<close> for an \<^verbatim>\<open>int64\<close>: the decimal digits, after
  a minus sign for a negative value.
\<close>

definition digit_char :: "nat \<Rightarrow> char" where
  "digit_char d = ''0123456789'' ! d"

function digits_of :: "nat \<Rightarrow> string" where
  "digits_of n = (if n < 10 then [digit_char n] else digits_of (n div 10) @ [digit_char (n mod 10)])"
  by pat_completeness auto
termination
  by (relation "measure id") auto

declare digits_of.simps [simp del]

definition Itoa :: "int64 \<Rightarrow> string" where
  "Itoa x = (if sint x < 0 then CHR ''-'' # digits_of (nat (- sint x)) else digits_of (nat (sint x)))"


subsection \<open>Files, and the single-file format\<close>

text \<open>
  The files the service reads and writes are outside the program. What a reader finds at a
  path is an \<open>entry\<close>: nothing (\<^verbatim>\<open>os.Stat\<close> and \<^verbatim>\<open>os.Open\<close> fail), a file that cannot be read
  (\<^verbatim>\<open>os.Stat\<close> succeeds, opening or reading fails), or a file with its bytes. Whether a path
  can be created or truncated for writing, and whether the write then succeeds, are
  \<open>creatable\<close> and \<open>storable\<close>. A write to a path leaves the bytes written there, except that
  an unreadable file stays unreadable; a failed write leaves the truncated file empty.
\<close>

datatype fentry = Absent | Unreadable | Contents string

record filesys =
  entry :: "string \<Rightarrow> fentry"
  creatable :: "string \<Rightarrow> bool"
  storable :: "string \<Rightarrow> bool"

definition written :: "fentry \<Rightarrow> string \<Rightarrow> fentry" where
  "written e str = (case e of Unreadable \<Rightarrow> Unreadable | _ \<Rightarrow> Contents str)"

text \<open>Format A: \<^verbatim>\<open>ExportToFile\<close> writes every account as \<^verbatim>\<open>ID;Phone;Balance|\<close>.\<close>

fun export_loop :: "account list \<Rightarrow> string \<Rightarrow> string" where
  "export_loop [] str = str"
| "export_loop (acc # as) str =
     export_loop as (str @ (Itoa (ID acc) @ '';'') @ (Phone acc @ '';'') @ (Itoa (Balance acc) @ ''|''))"

definition ExportToFile :: "service \<Rightarrow> filesys \<Rightarrow> string \<Rightarrow> error option \<times> filesys" where
  "ExportToFile s fs path =
     (if \<not> creatable fs path then (Some ErrFileNotFound, fs)
      else
        let str = export_loop (accounts s) ''''
        in if \<not> storable fs path
           then (Some ErrFileNotFound, fs\<lparr>entry := (entry fs)(path := written (entry fs path) '''')\<rparr>)
           else (None, fs\<lparr>entry := (entry fs)(path := written (entry fs path) str)\<rparr>))"

text \<open>
  \<^verbatim>\<open>ImportFromFile\<close> reads the file through a buffer of 4 bytes until \<^verbatim>\<open>io.EOF\<close>, splits
  the bytes at \<^verbatim>\<open>|\<close>, drops the last piece, and appends one account per piece. A piece
  whose first field is an integer but which has fewer than three fields panics at
  \<^verbatim>\<open>splits[2]\<close>. An error returns at once, with the accounts appended so far in place.
\<close>

function read_loop :: "string \<Rightarrow> string \<Rightarrow> string" where
  "read_loop rest content =
     (if rest = [] then content else read_loop (drop 4 rest) (content @ take 4 rest))"
  by pat_completeness auto
termination
  by (relation "measure (\<lambda>(rest, content). length rest)") auto

declare read_loop.simps [simp del]

fun import_records :: "service \<Rightarrow> string list \<Rightarrow> error option \<times> service" where
  "import_records s [] = (None, s)"
| "import_records s (acc # rest) =
     (let splits = split_on (CHR '';'') acc in
      case ParseInt (splits ! 0) of
        Inl e \<Rightarrow> (Some e, s)
      | Inr n \<Rightarrow>
          if length splits < 3 then (Some PanicOutOfRange, s)
          else case ParseInt (splits ! 2) of
            Inl e \<Rightarrow> (Some e, s)
          | Inr balance \<Rightarrow>
              import_records
                (s\<lparr>accounts := accounts s @ [\<lparr>ID = n, Phone = splits ! 1, Balance = balance\<rparr>]\<rparr>)
                rest)"

definition ImportFromFile :: "service \<Rightarrow> filesys \<Rightarrow> string \<Rightarrow> error option \<times> service" where
  "ImportFromFile s fs path =
     (case entry fs path of
        Absent \<Rightarrow> (Some ErrFileNotFound, s)
      | Unreadable \<Rightarrow> (Some ErrFileNotFound, s)
      | Contents bytes \<Rightarrow>
          let data = read_loop bytes '''';
              accs = split_on (CHR ''|'') data
          in import_records s (if length accs > 0 then butlast accs else accs))"


subsection \<open>The per-entity dump format\<close>

text \<open>
  Format B: \<^verbatim>\<open>Export\<close> writes one file per collection that is not empty, one line per
  entity. It ignores the error of \<^verbatim>\<open>os.OpenFile\<close> and of the write (the methods of a nil
  \<^verbatim>\<open>*os.File\<close> return an error, they do not panic) and always returns nil.
\<close>

fun dump_accounts :: "account list \<Rightarrow> string \<Rightarrow> string" where
  "dump_accounts [] str = str"
| "dump_accounts (v # vs) str =
     dump_accounts vs (str @ Itoa (ID v) @ '';'' @ Phone v @ '';'' @ Itoa (Balance v) @ ''\<newline>'')"

fun dump_payments :: "payment list \<Rightarrow> string \<Rightarrow> string" where
  "dump_payments [] str = str"
| "dump_payments (v # vs) str =
     dump_payments vs (str @ PaymentID v @ '';'' @ Itoa (AccountID v) @ '';'' @ Itoa (Amount v)
        @ '';'' @ Category v @ '';'' @ Status v @ ''\<newline>'')"

fun dump_favorites :: "favorite list \<Rightarrow> string \<Rightarrow> string" where
  "dump_favorites [] str = str"
| "dump_favorites (v # vs) str =
     dump_favorites vs (str @ FavoriteID v @ '';'' @ Itoa (FavAccountID v) @ '';''
        @ Itoa (FavAmount v) @ '';'' @ FavCategory v @ ''\<newline>'')"

definition write_dump :: "filesys \<Rightarrow> string \<Rightarrow> string \<Rightarrow> filesys" where
  "write_dump fs path str =
     (if creatable fs path
      then fs\<lparr>entry := (entry fs)(path := written (entry fs path) (if storable fs path then str else ''''))\<rparr>
      else fs)"

definition Export :: "service \<Rightarrow> filesys \<Rightarrow> string \<Rightarrow> error option \<times> filesys" where
  "Export s fs dir =
     (let fs1 = (if length (accounts s) > 0
                 then write_dump fs (dir @ ''/accounts.dump'') (dump_accounts (accounts s) '''')
                 else fs);
          fs2 = (if length (payments s) > 0
                 then write_dump fs1 (dir @ ''/payments.dump'') (dump_payments (payments s) '''')
                 else fs1);
          fs3 = (if length (favorites s) > 0
                 then write_dump fs2 (dir @ ''/favorites.dump'') (dump_favorites (favorites s) '''')
                 else fs2)
      in (None, fs3))"

text \<open>
  \<^verbatim>\<open>Import\<close>, per line of a dump: every entity with the ID of the line is overwritten (the
  loop has no \<^verbatim>\<open>break\<close>), and the flag says whether none was found, in which case a new
  entity is appended. For payments and favorites the category and status fields are
  indexed only inside the loop or the literal, so a line with too few fields panics
  there: at the first match, after its \<^verbatim>\<open>AccountID\<close> and \<^verbatim>\<open>Amount\<close> are already overwritten, or,
  without a match, before the append. (\<^verbatim>\<open>fmt.Println\<close> of the fields is not modelled.)
\<close>

fun merge_account :: "account list \<Rightarrow> int64 \<Rightarrow> Phone \<Rightarrow> Money \<Rightarrow> account list \<times> bool" where
  "merge_account [] n phone balance = ([], True)"
| "merge_account (v # vs) n phone balance =
     (let (vs', flag) = merge_account vs n phone balance
      in if ID v = n then (v\<lparr>Phone := phone, Balance := balance\<rparr> # vs', False)
         else (v # vs', flag))"

fun import_account_lines :: "service \<Rightarrow> string list \<Rightarrow> error option \<times> service" where
  "import_account_lines s [] = (None, s)"
| "import_account_lines s (v # rest) =
     (let f = split_on (CHR '';'') v in
      case ParseInt (f ! 0) of
        Inl e \<Rightarrow> (Some e, s)
      | Inr n \<Rightarrow>
          if length f < 3 then (Some PanicOutOfRange, s)
          else case ParseInt (f ! 2) of
            Inl e \<Rightarrow> (Some e, s)
          | Inr balance \<Rightarrow>
              let (merged, flag) = merge_account (accounts s) n (f ! 1) balance;
                  s1 = s\<lparr>accounts := merged\<rparr>;
                  s2 = (if flag
                        then s1\<lparr>accounts := accounts s1 @ [\<lparr>ID = n, Phone = f ! 1, Balance = balance\<rparr>]\<rparr>
                        else s1)
              in import_account_lines s2 rest)"

fun merge_payment ::
  "payment list \<Rightarrow> string \<Rightarrow> int64 \<Rightarrow> Money \<Rightarrow> string list \<Rightarrow> error option \<times> payment list \<times> bool" where
  "merge_payment [] pid aid amount f = (None, [], True)"
| "merge_payment (v # vs) pid aid amount f =
     (if PaymentID v = pid then
        (if length f < 4
         then (Some PanicOutOfRange, v\<lparr>AccountID := aid, Amount := amount\<rparr> # vs, False)
         else if length f < 5
         then (Some PanicOutOfRange,
               v\<lparr>AccountID := aid, Amount := amount, Category := f ! 3\<rparr> # vs, False)
         else
           (case merge_payment vs pid aid amount f of
              (e, vs', flag) \<Rightarrow>
                (e, v\<lparr>AccountID := aid, Amount := amount, Category := f ! 3, Status := f ! 4\<rparr> # vs',
                 False)))
      else
        (case merge_payment vs pid aid amount f of
           (e, vs', flag) \<Rightarrow> (e, v # vs', flag)))"

fun import_payment_lines :: "service \<Rightarrow> string list \<Rightarrow> error option \<times> service" where
  "import_payment_lines s [] = (None, s)"
| "import_payment_lines s (v # rest) =
     (let f = split_on (CHR '';'') v in
      if length f < 2 then (Some PanicOutOfRange, s)
      else case ParseInt (f ! 1) of
        Inl e \<Rightarrow> (Some e, s)
      | Inr aid \<Rightarrow>
          if length f < 3 then (Some PanicOutOfRange, s)
          else case ParseInt (f ! 2) of
            Inl e \<Rightarrow> (Some e, s)
          | Inr amount \<Rightarrow>
              (case merge_payment (payments s) (f ! 0) aid amount f of
                 (Some e, merged, flag) \<Rightarrow> (Some e, s\<lparr>payments := merged\<rparr>)
               | (None, merged, flag) \<Rightarrow>
                   let s1 = s\<lparr>payments := merged\<rparr> in
                   if flag then
                     (if length f < 5 then (Some PanicOutOfRange, s1)
                      else import_payment_lines
                        (s1\<lparr>payments := payments s1 @
                           [\<lparr>PaymentID = f ! 0, AccountID = aid, Amount = amount,
                             Category = f ! 3, Status = f ! 4\<rparr>]\<rparr>) rest)
                   else import_payment_lines s1 rest))"

fun merge_favorite ::
  "favorite list \<Rightarrow> string \<Rightarrow> int64 \<Rightarrow> Money \<Rightarrow> string list \<Rightarrow> error option \<times> favorite list \<times> bool" where
  "merge_favorite [] fid aid amount f = (None, [], True)"
| "merge_favorite (v # vs) fid aid amount f =
     (if FavoriteID v = fid then
        (if length f < 4
         then (Some PanicOutOfRange, v\<lparr>FavAccountID := aid, FavAmount := amount\<rparr> # vs, False)
         else
           (case merge_favorite vs fid aid amount f of
              (e, vs', flag) \<Rightarrow>
                (e, v\<lparr>FavAccountID := aid, FavAmount := amount, FavCategory := f ! 3\<rparr> # vs', False)))
      else
        (case merge_favorite vs fid aid amount f of
           (e, vs', flag) \<Rightarrow> (e, v # vs', flag)))"

fun import_favorite_lines :: "service \<Rightarrow> string list \<Rightarrow> error option \<times> service" where
  "import_favorite_lines s [] = (None, s)"
| "import_favorite_lines s (v # rest) =
     (let f = split_on (CHR '';'') v in
      if length f < 2 then (Some PanicOutOfRange, s)
      else case ParseInt (f ! 1) of
        Inl e \<Rightarrow> (Some e, s)
      | Inr aid \<Rightarrow>
          if length f < 3 then (Some PanicOutOfRange, s)
          else case ParseInt (f ! 2) of
            Inl e \<Rightarrow> (Some e, s)
          | Inr amount \<Rightarrow>
              (case merge_favorite (favorites s) (f ! 0) aid amount f of
                 (Some e, merged, flag) \<Rightarrow> (Some e, s\<lparr>favorites := merged\<rparr>)
               | (None, merged, flag) \<Rightarrow>
                   let s1 = s\<lparr>favorites := merged\<rparr> in
                   if flag then
                     (if length f < 4 then (Some PanicOutOfRange, s1)
                      else import_favorite_lines
                        (s1\<lparr>favorites := favorites s1 @
                           [\<lparr>FavoriteID = f ! 0, FavAccountID = aid, Name = '''', FavAmount = amount,
                             FavCategory = f ! 3\<rparr>]\<rparr>) rest)
                   else import_favorite_lines s1 rest))"

text \<open>
  One dump file: skipped when \<^verbatim>\<open>os.Stat\<close> fails, an error when \<^verbatim>\<open>ioutil.ReadFile\<close> fails,
  otherwise split into lines, the last piece dropped. \<^verbatim>\<open>Import\<close> handles accounts,
  payments and favorites in this order and stops at the first error.
\<close>

definition import_dump ::
  "(service \<Rightarrow> string list \<Rightarrow> error option \<times> service) \<Rightarrow> service \<Rightarrow> fentry \<Rightarrow> error option \<times> service" where
  "import_dump lines s e =
     (case e of
        Absent \<Rightarrow> (None, s)
      | Unreadable \<Rightarrow> (Some ErrReadFile, s)
      | Contents bytes \<Rightarrow>
          let strArray = split_on (CHR ''\<newline>'') bytes
          in lines s (if length strArray > 0 then butlast strArray else strArray))"

definition Import :: "service \<Rightarrow> filesys \<Rightarrow> string \<Rightarrow> error option \<times> service" where
  "Import s fs dir =
     (case import_dump import_account_lines s (entry fs (dir @ ''/accounts.dump'')) of
        (Some e, s1) \<Rightarrow> (Some e, s1)
      | (None, s1) \<Rightarrow>
          (case import_dump import_payment_lines s1 (entry fs (dir @ ''/payments.dump'')) of
             (Some e, s2) \<Rightarrow> (Some e, s2)
           | (None, s2) \<Rightarrow>
               import_dump import_favorite_lines s2 (entry fs (dir @ ''/favorites.dump''))))"

subsection \<open>Notions used to state the properties\<close>

text \<open>The slots of the payments whose ID is the one searched, in the order they were added.\<close>

definition matching_slots :: "payment list \<Rightarrow> string \<Rightarrow> nat list" where
  "matching_slots ps pid = filter (\<lambda>k. PaymentID (ps ! k) = pid) [0..<length ps]"


text \<open>The sum of all amounts, and the \<open>j\<close>-th slice of \<open>k\<close> payments.\<close>

definition total_amount :: "service \<Rightarrow> Money" where
  "total_amount s = sum_list (map Amount (payments s))"

definition nth_chunk :: "payment list \<Rightarrow> nat \<Rightarrow> nat \<Rightarrow> payment list" where
  "nth_chunk ps k j = take k (drop (j * k) ps)"


text \<open>The amounts of the payments in each chunk.\<close>

definition chunk_amounts :: "error + payment list list \<Rightarrow> error + Money list list" where
  "chunk_amounts r = (case r of Inl e \<Rightarrow> Inl e | Inr chunks \<Rightarrow> Inr (map (map Amount) chunks))"


text \<open>
  One record of format A without its terminator; a phone that holds neither of the two
  delimiters; the fields of a record, a record that parses (three fields or more, the
  first and the third integers), a record whose ID or balance field is not an integer,
  the account a well-formed record stands for, and the errors of \<^verbatim>\<open>strconv\<close>.
\<close>

definition export_record :: "account \<Rightarrow> string" where
  "export_record acc = Itoa (ID acc) @ '';'' @ Phone acc @ '';'' @ Itoa (Balance acc)"


definition clean_phone :: "account \<Rightarrow> bool" where
  "clean_phone acc = (CHR '';'' \<notin> set (Phone acc) \<and> CHR ''|'' \<notin> set (Phone acc))"

definition record_fields :: "string \<Rightarrow> string list" where
  "record_fields r = split_on (CHR '';'') r"

definition well_formed :: "string \<Rightarrow> bool" where
  "well_formed r =
     (3 \<le> length (record_fields r) \<and> \<not> isl (ParseInt (record_fields r ! 0))
      \<and> \<not> isl (ParseInt (record_fields r ! 2)))"

definition malformed :: "string \<Rightarrow> bool" where
  "malformed r =
     (isl (ParseInt (record_fields r ! 0))
      \<or> (3 \<le> length (record_fields r) \<and> isl (ParseInt (record_fields r ! 2))))"

definition record_account :: "string \<Rightarrow> account" where
  "record_account r =
     \<lparr>ID = projr (ParseInt (record_fields r ! 0)), Phone = record_fields r ! 1,
      Balance = projr (ParseInt (record_fields r ! 2))\<rparr>"

fun is_parse_error :: "error \<Rightarrow> bool" where
  "is_parse_error (ErrSyntax str) = True"
| "is_parse_error (ErrRange str) = True"
| "is_parse_error e = False"

definition no_bar :: "string \<Rightarrow> bool" where
  "no_bar r = (CHR ''|'' \<notin> set r)"


text \<open>Concrete services on which the theorems below are instantiated.\<close>

definition two_same_id :: service where
  "two_same_id = \<lparr>nextAccountID = 1, accounts = [\<lparr>ID = 1, Phone = ''+1'', Balance = 0\<rparr>],
     payments = [\<lparr>PaymentID = ''x'', AccountID = 1, Amount = 10, Category = ''a'', Status = ''INPROGRESS''\<rparr>,
                 \<lparr>PaymentID = ''y'', AccountID = 1, Amount = 20, Category = ''b'', Status = ''INPROGRESS''\<rparr>,
                 \<lparr>PaymentID = ''x'', AccountID = 1, Amount = 30, Category = ''c'', Status = ''INPROGRESS''\<rparr>],
     favorites = []\<rparr>"

definition one_account :: service where
  "one_account = \<lparr>nextAccountID = 1, accounts = [\<lparr>ID = 1, Phone = ''+1'', Balance = 100\<rparr>],
     payments = [], favorites = []\<rparr>"


definition five_payments :: service where
  "five_payments = \<lparr>nextAccountID = 1, accounts = [\<lparr>ID = 1, Phone = ''+1'', Balance = 0\<rparr>],
     payments =
       [\<lparr>PaymentID = ''a'', AccountID = 1, Amount = 100, Category = ''c'', Status = ''INPROGRESS''\<rparr>,
        \<lparr>PaymentID = ''b'', AccountID = 1, Amount = 250, Category = ''c'', Status = ''INPROGRESS''\<rparr>,
        \<lparr>PaymentID = ''c'', AccountID = 1, Amount = 50, Category = ''c'', Status = ''INPROGRESS''\<rparr>,
        \<lparr>PaymentID = ''d'', AccountID = 1, Amount = 10, Category = ''c'', Status = ''INPROGRESS''\<rparr>,
        \<lparr>PaymentID = ''e'', AccountID = 1, Amount = 5, Category = ''c'', Status = ''INPROGRESS''\<rparr>],
     favorites = []\<rparr>"


definition open_disk :: filesys where
  "open_disk = \<lparr>entry = (\<lambda>path. Absent), creatable = (\<lambda>path. True), storable = (\<lambda>path. True)\<rparr>"

definition disk_with :: "string \<Rightarrow> string \<Rightarrow> filesys" where
  "disk_with path bytes = open_disk\<lparr>entry := (entry open_disk)(path := Contents bytes)\<rparr>"

definition semicolon_phone :: service where
  "semicolon_phone = \<lparr>nextAccountID = 1, accounts = [\<lparr>ID = 1, Phone = ''a;7'', Balance = 0\<rparr>],
     payments = [], favorites = []\<rparr>"

definition three_accounts :: service where
  "three_accounts = \<lparr>nextAccountID = 3,
     accounts = [\<lparr>ID = 1, Phone = ''+992000000001'', Balance = 0\<rparr>,
                 \<lparr>ID = 2, Phone = ''+992000000002'', Balance = 15\<rparr>,
                 \<lparr>ID = 3, Phone = ''+992000000003'', Balance = - 4\<rparr>],
     payments = [], favorites = []\<rparr>"


text \<open>
  The overwrite that a dump line makes on one entity; a field free of the delimiters of
  format B; the line of an entity without its newline; and what \<^verbatim>\<open>Export\<close> needs from the
  disk to leave exactly the dump of a collection: no file where the collection is
  empty, a path that can be created, written and read where it is not.
\<close>

definition overwrite_account :: "int64 \<Rightarrow> Phone \<Rightarrow> Money \<Rightarrow> account \<Rightarrow> account" where
  "overwrite_account n phone balance a = (if ID a = n then a\<lparr>Phone := phone, Balance := balance\<rparr> else a)"

definition overwrite_payment ::
  "string \<Rightarrow> int64 \<Rightarrow> Money \<Rightarrow> PaymentCategory \<Rightarrow> PaymentStatus \<Rightarrow> payment \<Rightarrow> payment" where
  "overwrite_payment pid aid amount category status p =
     (if PaymentID p = pid
      then p\<lparr>AccountID := aid, Amount := amount, Category := category, Status := status\<rparr> else p)"

definition overwrite_favorite ::
  "string \<Rightarrow> int64 \<Rightarrow> Money \<Rightarrow> PaymentCategory \<Rightarrow> favorite \<Rightarrow> favorite" where
  "overwrite_favorite fid aid amount category v =
     (if FavoriteID v = fid
      then v\<lparr>FavAccountID := aid, FavAmount := amount, FavCategory := category\<rparr> else v)"


definition clean_field :: "string \<Rightarrow> bool" where
  "clean_field str = (CHR '';'' \<notin> set str \<and> CHR ''\<newline>'' \<notin> set str)"

definition clean_account :: "account \<Rightarrow> bool" where
  "clean_account a = clean_field (Phone a)"

definition clean_payment :: "payment \<Rightarrow> bool" where
  "clean_payment p = (clean_field (PaymentID p) \<and> clean_field (Category p) \<and> clean_field (Status p))"

definition clean_favorite :: "favorite \<Rightarrow> bool" where
  "clean_favorite v = (clean_field (FavoriteID v) \<and> clean_field (FavCategory v))"

definition account_line :: "account \<Rightarrow> string" where
  "account_line v = Itoa (ID v) @ '';'' @ Phone v @ '';'' @ Itoa (Balance v)"

definition payment_line :: "payment \<Rightarrow> string" where
  "payment_line v = PaymentID v @ '';'' @ Itoa (AccountID v) @ '';'' @ Itoa (Amount v)
        @ '';'' @ Category v @ '';'' @ Status v"

definition favorite_line :: "favorite \<Rightarrow> string" where
  "favorite_line v = FavoriteID v @ '';'' @ Itoa (FavAccountID v) @ '';''
        @ Itoa (FavAmount v) @ '';'' @ FavCategory v"

definition dump_ready :: "filesys \<Rightarrow> string \<Rightarrow> bool \<Rightarrow> bool" where
  "dump_ready fs path nothing =
     (if nothing then entry fs path = Absent
      else creatable fs path \<and> storable fs path \<and> entry fs path \<noteq> Unreadable)"


text \<open>
  A service whose only phone holds both delimiters of format B, and a disk that already
  holds a payments dump.
\<close>

definition newline_phone :: service where
  "newline_phone = \<lparr>nextAccountID = 1,
     accounts = [\<lparr>ID = 1, Phone = ''a;0\<newline>9;b'', Balance = 0\<rparr>], payments = [], favorites = []\<rparr>"

definition stale_disk :: filesys where
  "stale_disk = disk_with ''data/payments.dump'' ''p;1;5;c;s\<newline>''"


text \<open>Registering a list of phones one after the other, and a service filled by an import.\<close>

fun register_all :: "service \<Rightarrow> Phone list \<Rightarrow> service" where
  "register_all s [] = s"
| "register_all s (phone # phones) = register_all (snd (RegisterAccount s phone)) phones"


definition imported_one :: service where
  "imported_one = snd (ImportFromFile empty_service
     (disk_with ''export.txt'' ''1;+992000000001;0|'') ''export.txt'')"


section \<open>Properties\<close>

subsection \<open>Facts about the lookup loops\<close>

lemma phone_registered_iff: "phone_registered as phone \<longleftrightarrow> phone \<in> Phone ` set as"
  by (induction as) auto

lemma find_account_from_None: "find_account_from as i a = None \<longleftrightarrow> a \<notin> ID ` set as"
  by (induction as arbitrary: i) auto

lemma find_account_from_Some:
  "find_account_from as i a = Some k \<Longrightarrow>
     i \<le> k \<and> k - i < length as \<and> ID (as ! (k - i)) = a \<and> (\<forall>j < k - i. ID (as ! j) \<noteq> a)"
proof (induction as arbitrary: i)
  case Nil
  then show ?case by simp
next
  case (Cons x xs)
  show ?case
  proof (cases "ID x = a")
    case True
    with Cons.prems show ?thesis by simp
  next
    case False
    with Cons.prems have r: "find_account_from xs (Suc i) a = Some k" by simp
    from Cons.IH [OF r] have ih: "Suc i \<le> k" "k - Suc i < length xs" "ID (xs ! (k - Suc i)) = a"
      "\<forall>j < k - Suc i. ID (xs ! j) \<noteq> a" by auto
    from ih(1) have e: "k - i = Suc (k - Suc i)" by arith
    show ?thesis using ih False unfolding e by (auto simp: less_Suc_eq_0_disj)
  qed
qed

lemma find_account_from_first:
  "\<forall>x \<in> set before. ID x \<noteq> a \<Longrightarrow> ID x = a \<Longrightarrow>
     find_account_from (before @ x # after) i a = Some (i + length before)"
  by (induction before arbitrary: i) auto

lemma find_payment_from_append:
  "find_payment_from (xs @ ys) i pid f = find_payment_from ys (i + length xs) pid (find_payment_from xs i pid f)"
  by (induction xs arbitrary: i f) auto

lemma find_payment_from_no_match:
  "\<forall>q \<in> set ys. PaymentID q \<noteq> pid \<Longrightarrow> find_payment_from ys i pid f = f"
  by (induction ys arbitrary: i) auto

lemma find_payment_from_last:
  "PaymentID p = pid \<Longrightarrow> \<forall>q \<in> set after. PaymentID q \<noteq> pid \<Longrightarrow>
     find_payment_from (before @ p # after) i pid f = Some (i + length before)"
  by (simp add: find_payment_from_append find_payment_from_no_match)

lemma find_payment_from_snoc:
  "find_payment_from (ps @ [p]) i pid f =
     (if PaymentID p = pid then Some (i + length ps) else find_payment_from ps i pid f)"
  by (simp add: find_payment_from_append)

lemma matching_slots_snoc:
  "matching_slots (ps @ [p]) pid =
     matching_slots ps pid @ (if PaymentID p = pid then [length ps] else [])"
  by (auto simp: matching_slots_def nth_append intro: filter_cong)

lemma find_payment_from_matching:
  "find_payment_from ps 0 pid None =
     (if matching_slots ps pid = [] then None else Some (last (matching_slots ps pid)))"
proof (induction ps rule: rev_induct)
  case Nil
  then show ?case by (simp add: matching_slots_def)
next
  case (snoc p ps)
  then show ?case by (simp add: find_payment_from_snoc matching_slots_snoc)
qed

lemma sint_sub_no_wrap:
  fixes b amount :: int64
  assumes "0 <s amount" "amount <=s b"
  shows "sint (b - amount) = sint b - sint amount"
proof -
  have lo: "- (2 ^ 63) \<le> sint b" and hi: "sint b < 2 ^ 63"
    using sint_ge [of b] sint_lt [of b] by simp_all
  have pos: "0 < sint amount" and le: "sint amount \<le> sint b"
    using assms by (simp_all add: word_sless_alt word_sle_eq)
  have "sint (b - amount) = signed_take_bit 63 (sint b - sint amount)"
    by (simp add: sint_word_ariths)
  also have "\<dots> = sint b - sint amount"
    by (rule signed_take_bit_int_eq_self) (use lo hi pos le in simp_all)
  finally show ?thesis .
qed

lemma FindAccountByID_Inr:
  "FindAccountByID s a = Inr i \<longleftrightarrow> find_account_from (accounts s) 0 a = Some i"
  by (simp add: FindAccountByID_def split: option.split)

lemma FindAccountByID_Inl:
  "FindAccountByID s a = Inl e \<longleftrightarrow> e = ErrAccountNotFound \<and> a \<notin> ID ` set (accounts s)"
  using find_account_from_None [of "accounts s" 0 a]
  by (cases "find_account_from (accounts s) 0 a") (auto simp: FindAccountByID_def)

lemma FindAccountByID_slot:
  assumes "FindAccountByID s a = Inr i"
  shows "i < length (accounts s)" "ID (account_at s i) = a" "\<forall>j < i. ID (accounts s ! j) \<noteq> a"
  using find_account_from_Some [of "accounts s" 0 a i] assms
  by (simp_all add: FindAccountByID_Inr account_at_def)

lemma matching_slots_fresh:
  "pid \<notin> PaymentID ` set ps \<Longrightarrow> matching_slots ps pid = []"
  by (auto simp: matching_slots_def filter_empty_conv)


subsection \<open>Updates that keep the IDs\<close>

lemma find_account_from_cong_ID:
  "map ID xs = map ID ys \<Longrightarrow> find_account_from xs n a = find_account_from ys n a"
proof (induction xs arbitrary: ys n)
  case Nil
  then show ?case by simp
next
  case (Cons x xs)
  then obtain y ys' where ys: "ys = y # ys'" by (cases ys) auto
  with Cons.prems have "ID x = ID y" "map ID xs = map ID ys'" by simp_all
  with Cons.IH [of ys' "Suc n"] ys show ?case by simp
qed

lemma map_ID_set_Balance:
  "map ID (xs[i := (xs ! i)\<lparr>Balance := b\<rparr>]) = map ID xs"
  by (cases "i < length xs") (simp_all add: map_update list_update_same_conv list_update_beyond)

lemma find_payment_from_cong_ID:
  "map PaymentID xs = map PaymentID ys \<Longrightarrow> find_payment_from xs n pid f = find_payment_from ys n pid f"
proof (induction xs arbitrary: ys n f)
  case Nil
  then show ?case by simp
next
  case (Cons x xs)
  then obtain y ys' where ys: "ys = y # ys'" by (cases ys) auto
  with Cons.prems have "PaymentID x = PaymentID y" "map PaymentID xs = map PaymentID ys'" by simp_all
  with Cons.IH [of ys' "Suc n"] ys show ?case by simp
qed

lemma map_PaymentID_set_Status:
  "map PaymentID (xs[j := (xs ! j)\<lparr>Status := st\<rparr>]) = map PaymentID xs"
  by (cases "j < length xs") (simp_all add: map_update list_update_same_conv list_update_beyond)

lemma find_account_from_set_Balance:
  "find_account_from (xs[i := (xs ! i)\<lparr>Balance := b\<rparr>]) n a = find_account_from xs n a"
  by (rule find_account_from_cong_ID) (rule map_ID_set_Balance)

lemma find_payment_from_set_Status:
  "find_payment_from (xs[j := (xs ! j)\<lparr>Status := st\<rparr>]) n pid f = find_payment_from xs n pid f"
  by (rule find_payment_from_cong_ID) (rule map_PaymentID_set_Status)

lemma find_payment_from_bound:
  "find_payment_from ps n pid f = Some k \<Longrightarrow> f = Some k \<or> (n \<le> k \<and> k < n + length ps)"
proof (induction ps arbitrary: n f)
  case Nil
  then show ?case by simp
next
  case (Cons p ps)
  from Cons.IH [OF Cons.prems [simplified]] show ?case
    by (auto split: if_splits)
qed

lemma FindPaymentByID_slot:
  "FindPaymentByID s pid = Inr j \<Longrightarrow> j < length (payments s)"
  using find_payment_from_bound [of "payments s" 0 pid None j]
  by (simp add: FindPaymentByID_def split: option.splits)

subsection \<open>One operation, seen from one account\<close>

lemma Pay_effect:
  assumes "FindAccountByID s a = Inr i"
  shows "FindAccountByID (snd (Pay s pid b amt c)) a = Inr i \<and>
         Balance (account_at (snd (Pay s pid b amt c)) i) =
           Balance (account_at s i) - payment_of s a (OpPay pid b amt c)"
proof (cases "find_account_from (accounts s) 0 b")
  case None
  then show ?thesis using assms by (simp add: Pay_def)
next
  case (Some k)
  from find_account_from_Some [OF Some] have k: "k < length (accounts s)" "ID (accounts s ! k) = b"
    by simp_all
  from assms have i: "i < length (accounts s)" "ID (accounts s ! i) = a"
    using FindAccountByID_slot [of s a i] by (simp_all add: account_at_def)
  show ?thesis
  proof (cases "\<not> amt <=s 0 \<and> \<not> Balance (accounts s ! k) <s amt")
    case False
    then show ?thesis using assms Some by (auto simp: Pay_def Let_def)
  next
    case True
    have same: "b = a \<Longrightarrow> k = i"
      using Some assms by (simp add: FindAccountByID_Inr)
    have diff: "b \<noteq> a \<Longrightarrow> k \<noteq> i"
      using k i by auto
    from True Some assms i k same diff show ?thesis
      by (cases "b = a")
         (simp_all add: Pay_def Let_def FindAccountByID_def account_at_def
            find_account_from_set_Balance)
  qed
qed

lemma Deposit_effect:
  assumes "FindAccountByID s a = Inr i"
  shows "FindAccountByID (snd (Deposit s b amt)) a = Inr i \<and>
         Balance (account_at (snd (Deposit s b amt)) i) =
           Balance (account_at s i) + deposit_of s a (OpDeposit b amt)"
proof (cases "find_account_from (accounts s) 0 b")
  case None
  then show ?thesis using assms by (simp add: Deposit_def FindAccountByID_def)
next
  case (Some k)
  from find_account_from_Some [OF Some] have k: "k < length (accounts s)" "ID (accounts s ! k) = b"
    by simp_all
  from assms have i: "i < length (accounts s)" "ID (accounts s ! i) = a"
    using FindAccountByID_slot [of s a i] by (simp_all add: account_at_def)
  have same: "b = a \<Longrightarrow> k = i"
    using Some assms by (simp add: FindAccountByID_Inr)
  have diff: "b \<noteq> a \<Longrightarrow> k \<noteq> i"
    using k i by auto
  from Some assms i k same diff show ?thesis
    by (cases "b = a"; cases "amt <s 0")
       (simp_all add: Deposit_def Let_def FindAccountByID_def account_at_def
          find_account_from_set_Balance)
qed

lemma Reject_effect:
  assumes "FindAccountByID s a = Inr i"
  shows "FindAccountByID (snd (Reject s pid)) a = Inr i \<and>
         Balance (account_at (snd (Reject s pid)) i) =
           Balance (account_at s i) + refund_of s a (OpReject pid)"
proof (cases "FindPaymentByID s pid")
  case (Inl e)
  then show ?thesis using assms by (simp add: Reject_def)
next
  case (Inr j)
  let ?b = "AccountID (payment_at s j)"
  show ?thesis
  proof (cases "find_account_from (accounts s) 0 ?b")
    case None
    then show ?thesis using assms Inr by (simp add: Reject_def FindAccountByID_def)
  next
    case (Some k)
    from find_account_from_Some [OF Some] have k: "k < length (accounts s)" "ID (accounts s ! k) = ?b"
      by simp_all
    from assms have i: "i < length (accounts s)" "ID (accounts s ! i) = a"
      using FindAccountByID_slot [of s a i] by (simp_all add: account_at_def)
    have same: "?b = a \<Longrightarrow> k = i"
      using Some assms by (simp add: FindAccountByID_Inr)
    have diff: "?b \<noteq> a \<Longrightarrow> k \<noteq> i"
      using k i by auto
    from Some Inr assms i k same diff show ?thesis
      by (cases "?b = a")
         (simp_all add: Reject_def Let_def FindAccountByID_def account_at_def
            find_account_from_set_Balance)
  qed
qed

lemma step_effect:
  assumes "FindAccountByID s a = Inr i"
  shows "FindAccountByID (step s x) a = Inr i \<and>
         Balance (account_at (step s x) i) =
           Balance (account_at s i) + deposit_of s a x - payment_of s a x + refund_of s a x"
proof (cases x)
  case (OpPay pid b amt c)
  with Pay_effect [OF assms, of pid b amt c] show ?thesis by simp
next
  case (OpDeposit b amt)
  with Deposit_effect [OF assms, of b amt] show ?thesis by simp
next
  case (OpReject pid)
  with Reject_effect [OF assms, of pid] show ?thesis by simp
qed

lemma run_balance:
  "FindAccountByID s a = Inr i \<Longrightarrow>
     FindAccountByID (run s ops) a = Inr i \<and>
     Balance (account_at (run s ops) i) =
       Balance (account_at s i) + deposited s a ops - paid s a ops + refunded s a ops"
proof (induction ops arbitrary: s)
  case Nil
  then show ?case by simp
next
  case (Cons x xs)
  from step_effect [OF Cons.prems, of x]
  have f: "FindAccountByID (step s x) a = Inr i"
    and b: "Balance (account_at (step s x) i) =
           Balance (account_at s i) + deposit_of s a x - payment_of s a x + refund_of s a x"
    by simp_all
  from Cons.IH [OF f] b show ?case by simp
qed

lemma Reject_found:
  assumes p: "FindPaymentByID s pid = Inr j"
    and a: "FindAccountByID s (AccountID (payment_at s j)) = Inr k"
  shows "Reject s pid =
     (None, s\<lparr>payments := (payments s)[j := (payment_at s j)\<lparr>Status := PaymentStatusFail\<rparr>],
              accounts := (accounts s)[k := (account_at s k)
                \<lparr>Balance := Balance (account_at s k) + Amount (payment_at s j)\<rparr>]\<rparr>)"
  using p a by (simp add: Reject_def Let_def)

lemma Reject_again:
  assumes p: "FindPaymentByID s pid = Inr j"
    and a: "FindAccountByID s (AccountID (payment_at s j)) = Inr k"
  shows "fst (Reject (snd (Reject s pid)) pid) = None \<and>
     Status (payment_at (snd (Reject (snd (Reject s pid)) pid)) j) = PaymentStatusFail \<and>
     Balance (account_at (snd (Reject (snd (Reject s pid)) pid)) k) =
       Balance (account_at s k) + Amount (payment_at s j) + Amount (payment_at s j)"
proof -
  let ?s1 = "s\<lparr>payments := (payments s)[j := (payment_at s j)\<lparr>Status := PaymentStatusFail\<rparr>],
              accounts := (accounts s)[k := (account_at s k)
                \<lparr>Balance := Balance (account_at s k) + Amount (payment_at s j)\<rparr>]\<rparr>"
  have j: "j < length (payments s)" using p by (rule FindPaymentByID_slot)
  have k: "k < length (accounts s)" using FindAccountByID_slot(1) [OF a] .
  have s1: "snd (Reject s pid) = ?s1" using Reject_found [OF p a] by simp
  have pay1: "payment_at ?s1 j = (payment_at s j)\<lparr>Status := PaymentStatusFail\<rparr>"
    using j by (simp add: payment_at_def)
  have acc1: "account_at ?s1 k = (account_at s k)
                \<lparr>Balance := Balance (account_at s k) + Amount (payment_at s j)\<rparr>"
    using k by (simp add: account_at_def)
  have p1: "FindPaymentByID ?s1 pid = Inr j"
    using p by (simp add: FindPaymentByID_def payment_at_def find_payment_from_set_Status)
  have a1: "FindAccountByID ?s1 (AccountID (payment_at ?s1 j)) = Inr k"
    unfolding pay1 using a
    by (simp add: FindAccountByID_def account_at_def find_account_from_set_Balance)
  from Reject_found [OF p1 a1] j k show ?thesis
    unfolding s1 by (simp add: pay1 acc1) (simp add: payment_at_def account_at_def)
qed


lemma paid_one: "snd (Pay one_account ''p1'' 1 100 ''food'') =
   \<lparr>nextAccountID = 1, accounts = [\<lparr>ID = 1, Phone = ''+1'', Balance = 0\<rparr>],
       payments = [\<lparr>PaymentID = ''p1'', AccountID = 1, Amount = 100, Category = ''food'',
           Status = PaymentStatusInProgress\<rparr>], favorites = []\<rparr>"
  by (simp add: Pay_def one_account_def Let_def word_sless_alt word_sle_eq)

lemma rejected_one: "Reject \<lparr>nextAccountID = 1, accounts = [\<lparr>ID = 1, Phone = ''+1'', Balance = 0\<rparr>],
       payments = [\<lparr>PaymentID = ''p1'', AccountID = 1, Amount = 100, Category = ''food'',
           Status = PaymentStatusInProgress\<rparr>], favorites = []\<rparr> ''p1'' =
   (None, \<lparr>nextAccountID = 1, accounts = [\<lparr>ID = 1, Phone = ''+1'', Balance = 100\<rparr>],
       payments = [\<lparr>PaymentID = ''p1'', AccountID = 1, Amount = 100, Category = ''food'',
           Status = PaymentStatusFail\<rparr>], favorites = []\<rparr>)"
  by (simp add: Reject_def FindPaymentByID_def FindAccountByID_def payment_at_def account_at_def Let_def)


subsection \<open>Chunks of SumPayments\<close>

lemma subtotal_eq: "subtotal ps val = val + sum_list (map Amount ps)"
  by (induction ps arbitrary: val) (simp_all add: add.assoc)

lemma add_all_eq: "add_all vals acc = acc + sum_list vals"
  by (induction vals arbitrary: acc) (simp_all add: add.assoc)

lemma add_all_any_order:
  "mset order = mset vals \<Longrightarrow> add_all order 0 = add_all vals 0"
proof -
  assume "mset order = mset vals"
  then have "sum_mset (mset order) = sum_mset (mset vals)" by simp
  then show ?thesis by (simp add: add_all_eq sum_mset_sum_list)
qed

lemma worker_chunks_explicit:
  "0 \<le> kol \<Longrightarrow> 0 \<le> i \<Longrightarrow> i \<le> b \<Longrightarrow> b * kol \<le> int (length ps) \<Longrightarrow>
     worker_chunks ps kol b i =
       Inr (map (nth_chunk ps (nat kol)) [nat i..<nat b] @ [drop (nat b * nat kol) ps])"
proof (induction ps kol b i rule: worker_chunks.induct)
  case (1 ps kol b i)
  show ?case
  proof (cases "i < b")
    case False
    with "1.prems" have ib: "i = b" by simp
    have m: "nat (b * kol) = nat b * nat kol"
      using "1.prems" ib by (simp add: nat_mult_distrib)
    have "nat (int (length ps) - b * kol) = length ps - nat (b * kol)"
      using "1.prems" ib by (simp add: nat_diff_distrib')
    then have "go_slice ps (b * kol) (int (length ps)) = Inr (drop (nat b * nat kol) ps)"
      using "1.prems" ib m by (simp add: go_slice_def)
    then show ?thesis using ib by (subst worker_chunks.simps) simp
  next
    case True
    have le: "(i + 1) * kol \<le> b * kol"
      using True "1.prems" by (intro mult_right_mono) simp_all
    have lo: "0 \<le> i * kol" and hi: "i * kol \<le> (i + 1) * kol"
      and top: "(i + 1) * kol \<le> int (length ps)"
      using "1.prems" le by (simp_all add: algebra_simps)
    have w: "(i + 1) * kol - i * kol = kol" by (simp add: algebra_simps)
    have m: "nat (i * kol) = nat i * nat kol"
      using "1.prems" by (simp add: nat_mult_distrib)
    have sl: "go_slice ps (i * kol) ((i + 1) * kol) = Inr (nth_chunk ps (nat kol) (nat i))"
      using lo hi top unfolding go_slice_def nth_chunk_def w m by simp
    have ih: "worker_chunks ps kol b (i + 1) =
       Inr (map (nth_chunk ps (nat kol)) [nat (i + 1)..<nat b] @ [drop (nat b * nat kol) ps])"
      using "1.IH" [OF True sl] "1.prems" True by simp
    have up: "[nat i..<nat b] = nat i # [nat (i + 1)..<nat b]"
      using True "1.prems" by (simp add: upt_conv_Cons nat_add_distrib)
    show ?thesis
      using True sl ih up by (subst worker_chunks.simps) simp
  qed
qed

lemma concat_chunks:
  "i \<le> b \<Longrightarrow> concat (map (nth_chunk ps k) [i..<b]) @ drop (b * k) ps = drop (i * k) ps"
proof (induction b)
  case 0
  then show ?case by simp
next
  case (Suc b)
  show ?case
  proof (cases "i = Suc b")
    case True
    then show ?thesis by simp
  next
    case False
    with Suc.prems have ib: "i \<le> b" by simp
    have "take k (drop (b * k) ps) @ drop (Suc b * k) ps = drop (b * k) ps"
      by (metis add.commute append_take_drop_id drop_drop mult_Suc)
    with Suc.IH [OF ib] ib show ?thesis
      by (simp add: nth_chunk_def)
  qed
qed

lemma chunks_of_zero: "chunks_of s 0 = Inr [payments s]"
  by (simp add: chunks_of_def Let_def worker_chunks.simps [of _ _ "- 1" 0] go_slice_def)

lemma sint_nonneg_pred:
  fixes g :: int64
  assumes "0 <s g"
  shows "sint (g - 1) = sint g - 1"
proof -
  from assms have "(1::int64) <=s g" by (simp add: word_sless_alt word_sle_eq)
  moreover have "0 <s (1::int64)" by (simp add: word_sless_alt)
  ultimately show ?thesis using sint_sub_no_wrap [of 1 g] by simp
qed

lemma go_quot_nonneg: "0 \<le> a \<Longrightarrow> 0 < b \<Longrightarrow> go_quot a b = a div b"
  by (simp add: go_quot_def)

lemma chunks_of_pos:
  assumes "0 <s g"
  shows "chunks_of s g =
     Inr (map (nth_chunk (payments s) (length (payments s) div nat (sint g))) [0..<nat (sint g) - 1]
          @ [drop ((nat (sint g) - 1) * (length (payments s) div nat (sint g))) (payments s)])"
proof -
  let ?ps = "payments s" and ?w = "nat (sint g)"
  let ?k = "length ?ps div ?w"
  from assms have pos: "0 < sint g" by (simp add: word_sless_alt)
  then have g0: "g \<noteq> 0" by auto
  have w: "int ?w = sint g" using pos by simp
  have kol: "go_quot (int (length ?ps)) (sint g) = int ?k"
    using pos by (simp add: go_quot_nonneg zdiv_int w)
  have b: "sint (g - 1) = int (?w - 1)"
    using sint_nonneg_pred [OF assms] pos by simp
  have "(?w - 1) * ?k \<le> ?w * ?k" by (simp add: mult_le_mono1)
  also have "\<dots> \<le> length ?ps" by simp
  finally have fit: "int (?w - 1) * int ?k \<le> int (length ?ps)"
    by (metis of_nat_le_iff of_nat_mult)
  from worker_chunks_explicit [of "int ?k" 0 "int (?w - 1)" ?ps] fit
  have "worker_chunks ?ps (int ?k) (int (?w - 1)) 0 =
      Inr (map (nth_chunk ?ps ?k) [0..<?w - 1] @ [drop ((?w - 1) * ?k) ?ps])"
    by simp
  then show ?thesis
    using g0 by (simp add: chunks_of_def Let_def kol b)
qed

lemma sum_chunks:
  "add_all (map (\<lambda>chunk. subtotal chunk 0) chunks) 0 = sum_list (map Amount (concat chunks))"
  by (induction chunks) (simp_all add: add_all_eq subtotal_eq)

lemma chunks_of_concat:
  assumes "0 <=s g"
  shows "\<exists>chunks. chunks_of s g = Inr chunks \<and> concat chunks = payments s"
proof (cases "g = 0")
  case True
  then show ?thesis by (simp add: chunks_of_zero)
next
  case False
  with assms have "0 <s g" by (simp add: word_sless_eq)
  from chunks_of_pos [OF this, of s] concat_chunks [of 0 "nat (sint g) - 1" "payments s"]
  show ?thesis by simp
qed

lemma last_chunk_length:
  assumes "0 < (w::nat)"
  shows "n - (w - 1) * (n div w) = n div w + n mod w"
proof -
  have "n = w * (n div w) + n mod w" by simp
  moreover from assms have "w * (n div w) = (w - 1) * (n div w) + n div w"
    by (cases w) simp_all
  ultimately show ?thesis by arith
qed

lemma inner_chunk_length:
  assumes "j < w - 1"
  shows "length (nth_chunk ps (length ps div w) j) = length ps div w"
proof -
  let ?k = "length ps div w"
  from assms have "Suc j \<le> w" by simp
  then have "Suc j * ?k \<le> w * ?k" by (rule mult_le_mono1)
  also have "\<dots> \<le> length ps" by simp
  finally have "j * ?k + ?k \<le> length ps" by simp
  then show ?thesis by (simp add: nth_chunk_def)
qed

lemma five_chunks: "chunk_amounts (chunks_of five_payments 3) = Inr [[100], [250], [50, 10, 5]]"
proof -
  have "0 <s (3::int64)" by (simp add: word_sless_alt)
  from chunks_of_pos [OF this, of five_payments] show ?thesis
    by (simp add: chunk_amounts_def five_payments_def nth_chunk_def numeral_2_eq_2)
qed


subsection \<open>Splitting, parsing and printing\<close>

lemma split_on_nonempty: "split_on sep s \<noteq> []"
  by (induction s) (auto split: list.split)

lemma digit_cases:
  assumes "d < (10::nat)"
  obtains "d = 0" | "d = 1" | "d = 2" | "d = 3" | "d = 4" | "d = 5" | "d = 6" | "d = 7" | "d = 8" | "d = 9"
proof -
  from assms have "d = 0 \<or> d = 1 \<or> d = 2 \<or> d = 3 \<or> d = 4 \<or> d = 5 \<or> d = 6 \<or> d = 7 \<or> d = 8 \<or> d = 9"
    by arith
  with that show thesis by blast
qed

lemma digit_val_digit_char: "d < 10 \<Longrightarrow> digit_val (digit_char d) = Some d"
  by (erule digit_cases) (simp_all add: digit_val_def digit_char_def)

lemma digit_char_plain:
  "d < 10 \<Longrightarrow> digit_char d \<notin> {CHR '';'', CHR ''|'', CHR ''\<newline>'', CHR ''+'', CHR ''-''}"
  by (erule digit_cases) (simp_all add: digit_char_def)

lemma parse_uint_snoc:
  "parse_uint (cs @ [c]) n =
     (case parse_uint cs n of
        Inl e \<Rightarrow> Inl e
      | Inr m \<Rightarrow> parse_uint [c] m)"
  by (induction cs arbitrary: n) (simp_all split: option.split)

lemma parse_uint_digits_of:
  "n \<le> 2 ^ 64 - 1 \<Longrightarrow> parse_uint (digits_of n) 0 = Inr n"
proof (induction n rule: digits_of.induct)
  case (1 n)
  show ?case
  proof (cases "n < 10")
    case True
    then show ?thesis
      using "1.prems" by (subst digits_of.simps) (simp add: digit_val_digit_char)
  next
    case False
    have small: "n div 10 \<le> 2 ^ 64 - 1" using "1.prems" by linarith
    have d: "digit_val (digit_char (n mod 10)) = Some (n mod 10)"
      by (simp add: digit_val_digit_char)
    have recompose: "n div 10 * 10 + n mod 10 = n" by simp
    from "1.IH" [OF False small] d "1.prems" False show ?thesis
      by (subst digits_of.simps) (simp add: parse_uint_snoc recompose)
  qed
qed

lemma digits_of_plain:
  "set (digits_of n) \<inter> {CHR '';'', CHR ''|'', CHR ''\<newline>'', CHR ''+'', CHR ''-''} = {}"
proof (induction n rule: digits_of.induct)
  case (1 n)
  show ?case
  proof (cases "n < 10")
    case True
    then show ?thesis
      using digit_char_plain [of n] by (subst digits_of.simps) simp
  next
    case False
    with "1.IH" digit_char_plain [of "n mod 10"] show ?thesis
      by (subst digits_of.simps) simp
  qed
qed

lemma digits_of_nonempty: "digits_of n \<noteq> []"
  by (subst digits_of.simps) simp

lemma word_of_int_sint_id: "word_of_int (sint (x::int64)) = x"
  by (metis scast_eq scast_id)

lemma ParseInt_Itoa: "ParseInt (Itoa x) = Inr x"
proof (cases "sint x < 0")
  case False
  let ?n = "nat (sint x)"
  have lt: "sint x < 2 ^ 63" using sint_lt [of x] by simp
  with False have n: "?n < 2 ^ 63" by (simp add: nat_less_iff)
  then have n64: "?n \<le> 2 ^ 64 - 1" by simp
  obtain c cs where d: "digits_of ?n = c # cs"
    using digits_of_nonempty [of ?n] by (cases "digits_of ?n") auto
  have "c \<in> set (digits_of ?n)" using d by simp
  with digits_of_plain [of ?n] have c: "c \<noteq> CHR ''+''" "c \<noteq> CHR ''-''" by auto
  have p: "parse_uint (c # cs) 0 = Inr ?n"
    using parse_uint_digits_of [OF n64] d by simp
  have v: "(word_of_nat ?n :: int64) = x"
    using False word_of_int_sint_id [of x] by (simp add: word_of_int_nat)
  have "ParseInt (c # cs) = Inr x"
    unfolding ParseInt_def using c p n v by (simp add: Let_def del: parse_uint.simps)
  with False d show ?thesis by (simp add: Itoa_def)
next
  case True
  let ?n = "nat (- sint x)"
  have ge: "- (2 ^ 63) \<le> sint x" using sint_ge [of x] by simp
  then have n: "?n \<le> 2 ^ 63" by simp
  then have n64: "?n \<le> 2 ^ 64 - 1" by simp
  have ne: "digits_of ?n \<noteq> []" by (rule digits_of_nonempty)
  have p: "parse_uint (digits_of ?n) 0 = Inr ?n"
    by (rule parse_uint_digits_of [OF n64])
  have "(word_of_nat ?n :: int64) = word_of_int (- sint x)"
    using True by (simp add: word_of_int_nat)
  then have v: "- (word_of_nat ?n :: int64) = x"
    using word_of_int_sint_id [of x] by simp
  have "ParseInt (CHR ''-'' # digits_of ?n) = Inr x"
    unfolding ParseInt_def using ne p n v by (simp add: Let_def)
  with True show ?thesis by (simp add: Itoa_def)
qed

lemma Itoa_plain: "set (Itoa x) \<inter> {CHR '';'', CHR ''|'', CHR ''\<newline>''} = {}"
  using digits_of_plain [of "nat (sint x)"] digits_of_plain [of "nat (- sint x)"]
  by (auto simp: Itoa_def)

lemma split_on_no_sep: "sep \<notin> set s \<Longrightarrow> split_on sep s = [s]"
  by (induction s) auto

lemma split_on_append:
  "sep \<notin> set s \<Longrightarrow> split_on sep (s @ sep # rest) = s # split_on sep rest"
  by (induction s) auto

lemma split_on_records:
  "\<forall>r \<in> set rs. sep \<notin> set r \<Longrightarrow>
     split_on sep (concat (map (\<lambda>r. r @ [sep]) rs)) = rs @ [[]]"
  by (induction rs) (simp_all add: split_on_append)

lemma split_on_three:
  "sep \<notin> set a \<Longrightarrow> sep \<notin> set b \<Longrightarrow> sep \<notin> set c \<Longrightarrow>
     split_on sep (a @ sep # b @ sep # c) = [a, b, c]"
  by (simp add: split_on_append split_on_no_sep)

subsection \<open>The single-file format\<close>

lemma read_loop_all: "read_loop rest content = content @ rest"
proof (induction rest content rule: read_loop.induct)
  case (1 rest content)
  show ?case
  proof (cases "rest = []")
    case True
    then show ?thesis by (subst read_loop.simps) simp
  next
    case False
    with "1.IH" show ?thesis by (subst read_loop.simps) simp
  qed
qed

lemma export_loop_eq:
  "export_loop as str = str @ concat (map (\<lambda>acc. export_record acc @ ''|'') as)"
  by (induction as arbitrary: str) (simp_all add: export_record_def)

lemma ImportFromFile_Contents:
  "entry fs path = Contents bytes \<Longrightarrow>
     ImportFromFile s fs path = import_records s (butlast (split_on (CHR ''|'') bytes))"
  using split_on_nonempty [of "CHR ''|''" bytes]
  by (simp add: ImportFromFile_def read_loop_all Let_def)

lemma import_records_accounts_prefix:
  "\<exists>added. accounts (snd (import_records s rs)) = accounts s @ added"
proof (induction rs arbitrary: s)
  case Nil
  then show ?case by simp
next
  case (Cons r rs)
  show ?case
  proof (cases "ParseInt (split_on (CHR '';'') r ! 0)")
    case (Inl e)
    then show ?thesis by (simp add: Let_def)
  next
    case n: (Inr n)
    show ?thesis
    proof (cases "length (split_on (CHR '';'') r) < 3")
      case True
      with n show ?thesis by (simp add: Let_def)
    next
      case False
      show ?thesis
      proof (cases "ParseInt (split_on (CHR '';'') r ! 2)")
        case (Inl e)
        with n False show ?thesis by (simp add: Let_def)
      next
        case (Inr balance)
        let ?s1 = "s\<lparr>accounts := accounts s @
          [\<lparr>ID = n, Phone = split_on (CHR '';'') r ! 1, Balance = balance\<rparr>]\<rparr>"
        from Cons.IH [of ?s1] obtain added
          where "accounts (snd (import_records ?s1 rs)) = accounts ?s1 @ added" by blast
        with n False Inr show ?thesis by (simp add: Let_def)
      qed
    qed
  qed
qed

lemma import_records_other_fields:
  "nextAccountID (snd (import_records s rs)) = nextAccountID s \<and>
   payments (snd (import_records s rs)) = payments s \<and>
   favorites (snd (import_records s rs)) = favorites s"
proof (induction rs arbitrary: s)
  case Nil
  then show ?case by simp
next
  case (Cons r rs)
  show ?case
    using Cons.IH
    by (simp add: Let_def split: sum.split)
qed

lemma ParseInt_error: "ParseInt str = Inl e \<Longrightarrow> is_parse_error e"
  by (auto simp: ParseInt_def Let_def split: list.splits sum.splits num_error.splits if_splits)

lemma export_record_fields:
  assumes "clean_phone acc"
  shows "split_on (CHR '';'') (export_record acc) = [Itoa (ID acc), Phone acc, Itoa (Balance acc)]"
proof -
  have "CHR '';'' \<notin> set (Itoa (ID acc))" "CHR '';'' \<notin> set (Itoa (Balance acc))"
    using Itoa_plain [of "ID acc"] Itoa_plain [of "Balance acc"] by auto
  moreover have "CHR '';'' \<notin> set (Phone acc)" using assms by (simp add: clean_phone_def)
  ultimately show ?thesis
    unfolding export_record_def using split_on_three [of "CHR '';''"] by simp
qed

lemma export_record_no_bar:
  assumes "clean_phone acc"
  shows "CHR ''|'' \<notin> set (export_record acc)"
  using Itoa_plain [of "ID acc"] Itoa_plain [of "Balance acc"] assms
  by (auto simp: export_record_def clean_phone_def)

lemma import_exported_records:
  "list_all clean_phone as \<Longrightarrow>
     import_records s (map export_record as) = (None, s\<lparr>accounts := accounts s @ as\<rparr>)"
proof (induction as arbitrary: s)
  case Nil
  then show ?case by simp
next
  case (Cons a as)
  then have a: "clean_phone a" and rest: "list_all clean_phone as" by simp_all
  have same: "\<lparr>ID = ID a, Phone = Phone a, Balance = Balance a\<rparr> = a" by simp
  show ?case
    using Cons.IH [OF rest, of "s\<lparr>accounts := accounts s @ [a]\<rparr>"]
    by (simp add: export_record_fields [OF a] ParseInt_Itoa Let_def same)
qed

lemma split_on_terminated:
  "list_all (\<lambda>r. sep \<notin> set r) rs \<Longrightarrow> sep \<notin> set tail \<Longrightarrow>
     split_on sep (concat (map (\<lambda>r. r @ [sep]) rs) @ tail) = rs @ [tail]"
  by (induction rs) (simp_all add: split_on_append split_on_no_sep)

lemma import_exported_string:
  assumes "list_all clean_phone as"
  shows "import_records s (butlast (split_on (CHR ''|'') (export_loop as ''''))) =
     (None, s\<lparr>accounts := accounts s @ as\<rparr>)"
proof -
  have nb: "list_all (\<lambda>r. CHR ''|'' \<notin> set r) (map export_record as)"
    using assms by (induction as) (simp_all add: export_record_no_bar)
  have "export_loop as '''' = concat (map (\<lambda>r. r @ ''|'') (map export_record as)) @ ''''"
    by (simp add: export_loop_eq comp_def)
  then have "split_on (CHR ''|'') (export_loop as '''') = map export_record as @ [[]]"
    using split_on_terminated [OF nb, of "[]"] by simp
  then show ?thesis using import_exported_records [OF assms, of s] by simp
qed

lemma import_well_formed_prefix:
  "list_all well_formed good \<Longrightarrow>
     import_records s (good @ rs) =
       import_records (s\<lparr>accounts := accounts s @ map record_account good\<rparr>) rs"
proof (induction good arbitrary: s)
  case Nil
  then show ?case by simp
next
  case (Cons g good)
  then have g: "well_formed g" and rest: "list_all well_formed good" by simp_all
  from g obtain n b where p: "ParseInt (split_on (CHR '';'') g ! 0) = Inr n"
      "ParseInt (split_on (CHR '';'') g ! 2) = Inr b" "\<not> length (split_on (CHR '';'') g) < 3"
    unfolding well_formed_def record_fields_def
    by (cases "ParseInt (split_on (CHR '';'') g ! 0)"; cases "ParseInt (split_on (CHR '';'') g ! 2)")
       auto
  have acc: "record_account g = \<lparr>ID = n, Phone = split_on (CHR '';'') g ! 1, Balance = b\<rparr>"
    using p by (simp add: record_account_def record_fields_def)
  show ?case
    using Cons.IH [OF rest, of "s\<lparr>accounts := accounts s @ [record_account g]\<rparr>"] p
    by (simp add: Let_def acc)
qed

lemma import_malformed:
  assumes "malformed bad"
  shows "\<exists>e. is_parse_error e \<and> import_records s (bad # rest) = (Some e, s)"
proof (cases "ParseInt (split_on (CHR '';'') bad ! 0)")
  case (Inl e)
  then show ?thesis using ParseInt_error [OF Inl] by (simp add: Let_def)
next
  case (Inr n)
  with assms have l: "\<not> length (split_on (CHR '';'') bad) < 3"
    and b: "isl (ParseInt (split_on (CHR '';'') bad ! 2))"
    by (auto simp: malformed_def record_fields_def)
  from b obtain e where e: "ParseInt (split_on (CHR '';'') bad ! 2) = Inl e"
    by (cases "ParseInt (split_on (CHR '';'') bad ! 2)") auto
  with Inr l ParseInt_error [OF e] show ?thesis by (simp add: Let_def)
qed

lemma Itoa_small: "Itoa 0 = ''0''" "Itoa 1 = ''1''" "Itoa 7 = ''7''"
  by (simp_all add: Itoa_def digits_of.simps digit_char_def)


subsection \<open>The dump format: merging by ID\<close>

lemma merge_account_eq:
  "merge_account as n phone balance = (map (overwrite_account n phone balance) as, n \<notin> ID ` set as)"
  by (induction as) (simp_all add: overwrite_account_def)

lemma merge_payment_eq:
  "5 \<le> length f \<Longrightarrow>
     merge_payment ps pid aid amount f =
       (None, map (overwrite_payment pid aid amount (f ! 3) (f ! 4)) ps, pid \<notin> PaymentID ` set ps)"
  by (induction ps) (simp_all add: overwrite_payment_def)

lemma merge_favorite_eq:
  "4 \<le> length f \<Longrightarrow>
     merge_favorite vs fid aid amount f =
       (None, map (overwrite_favorite fid aid amount (f ! 3)) vs, fid \<notin> FavoriteID ` set vs)"
  by (induction vs) (simp_all add: overwrite_favorite_def)

lemma overwrite_account_absent:
  "n \<notin> ID ` set as \<Longrightarrow> map (overwrite_account n phone balance) as = as"
  by (induction as) (auto simp: overwrite_account_def)

lemma overwrite_payment_absent:
  "pid \<notin> PaymentID ` set ps \<Longrightarrow> map (overwrite_payment pid aid amount category status) ps = ps"
  by (induction ps) (auto simp: overwrite_payment_def)

lemma overwrite_favorite_absent:
  "fid \<notin> FavoriteID ` set vs \<Longrightarrow> map (overwrite_favorite fid aid amount category) vs = vs"
  by (induction vs) (auto simp: overwrite_favorite_def)

lemma import_account_line:
  assumes "ParseInt (split_on (CHR '';'') v ! 0) = Inr n" "3 \<le> length (split_on (CHR '';'') v)"
    "ParseInt (split_on (CHR '';'') v ! 2) = Inr balance"
  shows "import_account_lines s (v # rest) =
     import_account_lines
       (s\<lparr>accounts :=
            (if n \<in> ID ` set (accounts s)
             then map (overwrite_account n (split_on (CHR '';'') v ! 1) balance) (accounts s)
             else accounts s @ [\<lparr>ID = n, Phone = split_on (CHR '';'') v ! 1, Balance = balance\<rparr>])\<rparr>)
       rest"
  using assms
  by (cases "n \<in> ID ` set (accounts s)")
     (simp_all add: Let_def merge_account_eq overwrite_account_absent)

lemma import_payment_line:
  assumes "5 \<le> length (split_on (CHR '';'') v)" "ParseInt (split_on (CHR '';'') v ! 1) = Inr aid"
    "ParseInt (split_on (CHR '';'') v ! 2) = Inr amount"
  shows "import_payment_lines s (v # rest) =
     import_payment_lines
       (s\<lparr>payments :=
            (if split_on (CHR '';'') v ! 0 \<in> PaymentID ` set (payments s)
             then map (overwrite_payment (split_on (CHR '';'') v ! 0) aid amount
                        (split_on (CHR '';'') v ! 3) (split_on (CHR '';'') v ! 4)) (payments s)
             else payments s @
               [\<lparr>PaymentID = split_on (CHR '';'') v ! 0, AccountID = aid, Amount = amount,
                 Category = split_on (CHR '';'') v ! 3, Status = split_on (CHR '';'') v ! 4\<rparr>])\<rparr>)
       rest"
proof -
  let ?f = "split_on (CHR '';'') v"
  from assms have l: "\<not> length ?f < 2" "\<not> length ?f < 3" "\<not> length ?f < 5" by simp_all
  show ?thesis
    using assms(2,3) l
    by (cases "?f ! 0 \<in> PaymentID ` set (payments s)")
       (simp_all add: Let_def merge_payment_eq [OF assms(1)] overwrite_payment_absent)
qed

lemma import_favorite_line:
  assumes "4 \<le> length (split_on (CHR '';'') v)" "ParseInt (split_on (CHR '';'') v ! 1) = Inr aid"
    "ParseInt (split_on (CHR '';'') v ! 2) = Inr amount"
  shows "import_favorite_lines s (v # rest) =
     import_favorite_lines
       (s\<lparr>favorites :=
            (if split_on (CHR '';'') v ! 0 \<in> FavoriteID ` set (favorites s)
             then map (overwrite_favorite (split_on (CHR '';'') v ! 0) aid amount
                        (split_on (CHR '';'') v ! 3)) (favorites s)
             else favorites s @
               [\<lparr>FavoriteID = split_on (CHR '';'') v ! 0, FavAccountID = aid, Name = '''',
                 FavAmount = amount, FavCategory = split_on (CHR '';'') v ! 3\<rparr>])\<rparr>)
       rest"
proof -
  let ?f = "split_on (CHR '';'') v"
  from assms have l: "\<not> length ?f < 2" "\<not> length ?f < 3" "\<not> length ?f < 4" by simp_all
  show ?thesis
    using assms(2,3) l
    by (cases "?f ! 0 \<in> FavoriteID ` set (favorites s)")
       (simp_all add: Let_def merge_favorite_eq [OF assms(1)] overwrite_favorite_absent)
qed

lemma Import_all_absent:
  assumes "entry fs (dir @ ''/accounts.dump'') = Absent" "entry fs (dir @ ''/payments.dump'') = Absent"
    "entry fs (dir @ ''/favorites.dump'') = Absent"
  shows "Import s fs dir = (None, s)"
  using assms by (simp add: Import_def import_dump_def)

lemma Itoa_clean: "clean_field (Itoa x)"
  using Itoa_plain [of x] by (auto simp: clean_field_def)

lemma dump_accounts_eq:
  "dump_accounts vs str = str @ concat (map (\<lambda>r. r @ ''\<newline>'') (map account_line vs))"
  by (induction vs arbitrary: str) (simp_all add: account_line_def)

lemma dump_payments_eq:
  "dump_payments vs str = str @ concat (map (\<lambda>r. r @ ''\<newline>'') (map payment_line vs))"
  by (induction vs arbitrary: str) (simp_all add: payment_line_def)

lemma dump_favorites_eq:
  "dump_favorites vs str = str @ concat (map (\<lambda>r. r @ ''\<newline>'') (map favorite_line vs))"
  by (induction vs arbitrary: str) (simp_all add: favorite_line_def)

lemma account_line_fields:
  assumes "clean_account v"
  shows "split_on (CHR '';'') (account_line v) = [Itoa (ID v), Phone v, Itoa (Balance v)]"
    and "CHR ''\<newline>'' \<notin> set (account_line v)"
  using assms Itoa_clean [of "ID v"] Itoa_clean [of "Balance v"]
  by (simp_all add: account_line_def clean_account_def clean_field_def split_on_append split_on_no_sep)

lemma payment_line_fields:
  assumes "clean_payment v"
  shows "split_on (CHR '';'') (payment_line v) =
      [PaymentID v, Itoa (AccountID v), Itoa (Amount v), Category v, Status v]"
    and "CHR ''\<newline>'' \<notin> set (payment_line v)"
  using assms Itoa_clean [of "AccountID v"] Itoa_clean [of "Amount v"]
  by (simp_all add: payment_line_def clean_payment_def clean_field_def split_on_append split_on_no_sep)

lemma favorite_line_fields:
  assumes "clean_favorite v"
  shows "split_on (CHR '';'') (favorite_line v) =
      [FavoriteID v, Itoa (FavAccountID v), Itoa (FavAmount v), FavCategory v]"
    and "CHR ''\<newline>'' \<notin> set (favorite_line v)"
  using assms Itoa_clean [of "FavAccountID v"] Itoa_clean [of "FavAmount v"]
  by (simp_all add: favorite_line_def clean_favorite_def clean_field_def split_on_append split_on_no_sep)

lemma lines_of_dump:
  assumes "list_all (\<lambda>r. CHR ''\<newline>'' \<notin> set r) ls"
  shows "butlast (split_on (CHR ''\<newline>'') (concat (map (\<lambda>r. r @ ''\<newline>'') ls))) = ls"
  using split_on_terminated [OF assms, of "[]"] by simp

lemma map_ID_overwrite: "map ID (map (overwrite_account n phone balance) as) = map ID as"
  by (induction as) (simp_all add: overwrite_account_def)

lemma map_PaymentID_overwrite:
  "map PaymentID (map (overwrite_payment pid aid amount category status) ps) = map PaymentID ps"
  by (induction ps) (simp_all add: overwrite_payment_def)

lemma map_FavoriteID_overwrite:
  "map FavoriteID (map (overwrite_favorite fid aid amount category) vs) = map FavoriteID vs"
  by (induction vs) (simp_all add: overwrite_favorite_def)

lemma reimport_accounts:
  "list_all clean_account vs \<Longrightarrow> ID ` set vs \<subseteq> ID ` set (accounts s) \<Longrightarrow>
     \<exists>s'. import_account_lines s (map account_line vs) = (None, s') \<and>
          map ID (accounts s') = map ID (accounts s) \<and>
          payments s' = payments s \<and> favorites s' = favorites s"
proof (induction vs arbitrary: s)
  case Nil
  then show ?case by simp
next
  case (Cons v vs)
  then have c: "clean_account v" and cs: "list_all clean_account vs"
    and inv: "ID v \<in> ID ` set (accounts s)" and invs: "ID ` set vs \<subseteq> ID ` set (accounts s)"
    by simp_all
  let ?s1 = "s\<lparr>accounts := map (overwrite_account (ID v) (Phone v) (Balance v)) (accounts s)\<rparr>"
  have step: "import_account_lines s (account_line v # map account_line vs) =
      import_account_lines ?s1 (map account_line vs)"
    using import_account_line [of "account_line v" "ID v" "Balance v" s "map account_line vs"] inv
    by (simp add: account_line_fields(1) [OF c] ParseInt_Itoa)
  have ids: "map ID (accounts ?s1) = map ID (accounts s)" by (simp add: overwrite_account_def)
  then have "ID ` set (accounts ?s1) = ID ` set (accounts s)"
    by (metis list.set_map)
  with invs have invs': "ID ` set vs \<subseteq> ID ` set (accounts ?s1)" by simp
  from Cons.IH [OF cs invs'] ids show ?case
    unfolding list.map step by auto
qed

lemma reimport_payments:
  "list_all clean_payment vs \<Longrightarrow> PaymentID ` set vs \<subseteq> PaymentID ` set (payments s) \<Longrightarrow>
     \<exists>s'. import_payment_lines s (map payment_line vs) = (None, s') \<and>
          map PaymentID (payments s') = map PaymentID (payments s) \<and>
          accounts s' = accounts s \<and> favorites s' = favorites s"
proof (induction vs arbitrary: s)
  case Nil
  then show ?case by simp
next
  case (Cons v vs)
  then have c: "clean_payment v" and cs: "list_all clean_payment vs"
    and inv: "PaymentID v \<in> PaymentID ` set (payments s)"
    and invs: "PaymentID ` set vs \<subseteq> PaymentID ` set (payments s)"
    by simp_all
  let ?s1 = "s\<lparr>payments := map (overwrite_payment (PaymentID v) (AccountID v) (Amount v)
      (Category v) (Status v)) (payments s)\<rparr>"
  have step: "import_payment_lines s (payment_line v # map payment_line vs) =
      import_payment_lines ?s1 (map payment_line vs)"
    using import_payment_line [of "payment_line v" "AccountID v" "Amount v" s "map payment_line vs"] inv
    by (simp add: payment_line_fields(1) [OF c] ParseInt_Itoa)
  have ids: "map PaymentID (payments ?s1) = map PaymentID (payments s)"
    by (simp add: overwrite_payment_def)
  then have "PaymentID ` set (payments ?s1) = PaymentID ` set (payments s)"
    by (metis list.set_map)
  with invs have invs': "PaymentID ` set vs \<subseteq> PaymentID ` set (payments ?s1)" by simp
  from Cons.IH [OF cs invs'] ids show ?case
    unfolding list.map step by auto
qed

lemma reimport_favorites:
  "list_all clean_favorite vs \<Longrightarrow> FavoriteID ` set vs \<subseteq> FavoriteID ` set (favorites s) \<Longrightarrow>
     \<exists>s'. import_favorite_lines s (map favorite_line vs) = (None, s') \<and>
          map FavoriteID (favorites s') = map FavoriteID (favorites s) \<and>
          accounts s' = accounts s \<and> payments s' = payments s"
proof (induction vs arbitrary: s)
  case Nil
  then show ?case by simp
next
  case (Cons v vs)
  then have c: "clean_favorite v" and cs: "list_all clean_favorite vs"
    and inv: "FavoriteID v \<in> FavoriteID ` set (favorites s)"
    and invs: "FavoriteID ` set vs \<subseteq> FavoriteID ` set (favorites s)"
    by simp_all
  let ?s1 = "s\<lparr>favorites := map (overwrite_favorite (FavoriteID v) (FavAccountID v) (FavAmount v)
      (FavCategory v)) (favorites s)\<rparr>"
  have step: "import_favorite_lines s (favorite_line v # map favorite_line vs) =
      import_favorite_lines ?s1 (map favorite_line vs)"
    using import_favorite_line [of "favorite_line v" "FavAccountID v" "FavAmount v" s
        "map favorite_line vs"] inv
    by (simp add: favorite_line_fields(1) [OF c] ParseInt_Itoa)
  have ids: "map FavoriteID (favorites ?s1) = map FavoriteID (favorites s)"
    by (simp add: overwrite_favorite_def)
  then have "FavoriteID ` set (favorites ?s1) = FavoriteID ` set (favorites s)"
    by (metis list.set_map)
  with invs have invs': "FavoriteID ` set vs \<subseteq> FavoriteID ` set (favorites ?s1)" by simp
  from Cons.IH [OF cs invs'] ids show ?case
    unfolding list.map step by auto
qed

lemma entry_write_dump:
  "entry (write_dump fs p str) q =
     (if q = p \<and> creatable fs p then written (entry fs p) (if storable fs p then str else '''')
      else entry fs q)"
  by (simp add: write_dump_def)

lemma write_dump_perms:
  "creatable (write_dump fs p str) = creatable fs" "storable (write_dump fs p str) = storable fs"
  by (simp_all add: write_dump_def)

lemma dump_paths_differ:
  "dir @ ''/accounts.dump'' \<noteq> dir @ ''/payments.dump''"
  "dir @ ''/accounts.dump'' \<noteq> dir @ ''/favorites.dump''"
  "dir @ ''/payments.dump'' \<noteq> dir @ ''/favorites.dump''"
  by simp_all

lemma written_ready: "e \<noteq> Unreadable \<Longrightarrow> written e str = Contents str"
  by (cases e) (simp_all add: written_def)

lemma Export_entries:
  assumes a: "dump_ready fs (dir @ ''/accounts.dump'') (accounts s = [])"
    and p: "dump_ready fs (dir @ ''/payments.dump'') (payments s = [])"
    and f: "dump_ready fs (dir @ ''/favorites.dump'') (favorites s = [])"
  shows "entry (snd (Export s fs dir)) (dir @ ''/accounts.dump'') =
           (if accounts s = [] then Absent else Contents (dump_accounts (accounts s) ''''))"
    and "entry (snd (Export s fs dir)) (dir @ ''/payments.dump'') =
           (if payments s = [] then Absent else Contents (dump_payments (payments s) ''''))"
    and "entry (snd (Export s fs dir)) (dir @ ''/favorites.dump'') =
           (if favorites s = [] then Absent else Contents (dump_favorites (favorites s) ''''))"
  using a p f dump_paths_differ [of dir] dump_paths_differ [of dir, symmetric]
  by (simp_all add: Export_def Let_def dump_ready_def entry_write_dump write_dump_perms
      written_ready split: if_splits)

lemma phase_accounts:
  assumes "list_all clean_account (accounts s)"
    and "e = (if accounts s = [] then Absent else Contents (dump_accounts (accounts s) ''''))"
  shows "\<exists>s'. import_dump import_account_lines s e = (None, s') \<and>
          map ID (accounts s') = map ID (accounts s) \<and>
          payments s' = payments s \<and> favorites s' = favorites s"
proof (cases "accounts s = []")
  case True
  with assms(2) show ?thesis by (simp add: import_dump_def)
next
  case False
  have nl: "list_all (\<lambda>r. CHR ''\<newline>'' \<notin> set r) (map account_line (accounts s))"
    using assms(1) by (induction "accounts s") (simp_all add: list_all_iff account_line_fields(2))
  have lines: "butlast (split_on (CHR ''\<newline>'') (dump_accounts (accounts s) '''')) =
      map account_line (accounts s)"
    using lines_of_dump [OF nl] by (simp add: dump_accounts_eq)
  from reimport_accounts [OF assms(1), of s] False assms(2) show ?thesis
    using split_on_nonempty [of "CHR ''\<newline>''" "dump_accounts (accounts s) ''''"]
    by (simp add: import_dump_def Let_def lines)
qed

lemma phase_payments:
  assumes "list_all clean_payment (payments s)"
    and "e = (if payments s = [] then Absent else Contents (dump_payments (payments s) ''''))"
  shows "\<exists>s'. import_dump import_payment_lines s e = (None, s') \<and>
          map PaymentID (payments s') = map PaymentID (payments s) \<and>
          accounts s' = accounts s \<and> favorites s' = favorites s"
proof (cases "payments s = []")
  case True
  with assms(2) show ?thesis by (simp add: import_dump_def)
next
  case False
  have nl: "list_all (\<lambda>r. CHR ''\<newline>'' \<notin> set r) (map payment_line (payments s))"
    using assms(1) by (simp add: list_all_iff payment_line_fields(2))
  have lines: "butlast (split_on (CHR ''\<newline>'') (dump_payments (payments s) '''')) =
      map payment_line (payments s)"
    using lines_of_dump [OF nl] by (simp add: dump_payments_eq)
  from reimport_payments [OF assms(1), of s] False assms(2) show ?thesis
    using split_on_nonempty [of "CHR ''\<newline>''" "dump_payments (payments s) ''''"]
    by (simp add: import_dump_def Let_def lines)
qed

lemma phase_favorites:
  assumes "list_all clean_favorite (favorites s)"
    and "e = (if favorites s = [] then Absent else Contents (dump_favorites (favorites s) ''''))"
  shows "\<exists>s'. import_dump import_favorite_lines s e = (None, s') \<and>
          map FavoriteID (favorites s') = map FavoriteID (favorites s) \<and>
          accounts s' = accounts s \<and> payments s' = payments s"
proof (cases "favorites s = []")
  case True
  with assms(2) show ?thesis by (simp add: import_dump_def)
next
  case False
  have nl: "list_all (\<lambda>r. CHR ''\<newline>'' \<notin> set r) (map favorite_line (favorites s))"
    using assms(1) by (simp add: list_all_iff favorite_line_fields(2))
  have lines: "butlast (split_on (CHR ''\<newline>'') (dump_favorites (favorites s) '''')) =
      map favorite_line (favorites s)"
    using lines_of_dump [OF nl] by (simp add: dump_favorites_eq)
  from reimport_favorites [OF assms(1), of s] False assms(2) show ?thesis
    using split_on_nonempty [of "CHR ''\<newline>''" "dump_favorites (favorites s) ''''"]
    by (simp add: import_dump_def Let_def lines)
qed

lemma Export_Import_sizes:
  assumes ca: "list_all clean_account (accounts s)" and cp: "list_all clean_payment (payments s)"
    and cf: "list_all clean_favorite (favorites s)"
    and a: "dump_ready fs (dir @ ''/accounts.dump'') (accounts s = [])"
    and p: "dump_ready fs (dir @ ''/payments.dump'') (payments s = [])"
    and f: "dump_ready fs (dir @ ''/favorites.dump'') (favorites s = [])"
  shows "\<exists>s'. Import s (snd (Export s fs dir)) dir = (None, s') \<and>
          map ID (accounts s') = map ID (accounts s) \<and>
          map PaymentID (payments s') = map PaymentID (payments s) \<and>
          map FavoriteID (favorites s') = map FavoriteID (favorites s)"
proof -
  let ?fs = "snd (Export s fs dir)"
  note e = Export_entries [OF a p f]
  from phase_accounts [OF ca e(1)] obtain s1
    where s1: "import_dump import_account_lines s (entry ?fs (dir @ ''/accounts.dump'')) = (None, s1)"
      "map ID (accounts s1) = map ID (accounts s)" "payments s1 = payments s"
      "favorites s1 = favorites s" by blast
  have cp1: "list_all clean_payment (payments s1)" using cp s1(3) by simp
  have e2: "entry ?fs (dir @ ''/payments.dump'') =
      (if payments s1 = [] then Absent else Contents (dump_payments (payments s1) ''''))"
    using e(2) s1(3) by simp
  from phase_payments [OF cp1 e2] obtain s2
    where s2: "import_dump import_payment_lines s1 (entry ?fs (dir @ ''/payments.dump'')) = (None, s2)"
      "map PaymentID (payments s2) = map PaymentID (payments s1)" "accounts s2 = accounts s1"
      "favorites s2 = favorites s1" by blast
  have cf2: "list_all clean_favorite (favorites s2)" using cf s1(4) s2(4) by simp
  have e3: "entry ?fs (dir @ ''/favorites.dump'') =
      (if favorites s2 = [] then Absent else Contents (dump_favorites (favorites s2) ''''))"
    using e(3) s1(4) s2(4) by simp
  from phase_favorites [OF cf2 e3] obtain s3
    where s3: "import_dump import_favorite_lines s2 (entry ?fs (dir @ ''/favorites.dump'')) = (None, s3)"
      "map FavoriteID (favorites s3) = map FavoriteID (favorites s2)" "accounts s3 = accounts s2"
      "payments s3 = payments s2" by blast
  have "Import s ?fs dir = (None, s3)"
    by (simp add: Import_def s1(1) s2(1) s3(1))
  with s1 s2 s3 show ?thesis by simp
qed

lemma Itoa_100: "Itoa 100 = ''100''"
  by (simp add: Itoa_def digits_of.simps digit_char_def)

lemma ParseInt_small:
  "ParseInt ''0'' = Inr 0" "ParseInt ''1'' = Inr 1" "ParseInt ''5'' = Inr 5" "ParseInt ''9'' = Inr 9"
  "ParseInt ''100'' = Inr 100"
  by (simp_all add: ParseInt_def digit_val_def)


subsection \<open>The account counter\<close>

lemma import_account_lines_counter:
  "nextAccountID (snd (import_account_lines s ls)) = nextAccountID s"
proof (induction ls arbitrary: s)
  case Nil
  then show ?case by simp
next
  case (Cons l ls)
  show ?case
    using Cons.IH by (simp add: Let_def split: sum.split prod.split)
qed

lemma import_payment_lines_counter:
  "nextAccountID (snd (import_payment_lines s ls)) = nextAccountID s"
proof (induction ls arbitrary: s)
  case Nil
  then show ?case by simp
next
  case (Cons l ls)
  show ?case
    using Cons.IH by (simp add: Let_def split: sum.split prod.split option.split)
qed

lemma import_favorite_lines_counter:
  "nextAccountID (snd (import_favorite_lines s ls)) = nextAccountID s"
proof (induction ls arbitrary: s)
  case Nil
  then show ?case by simp
next
  case (Cons l ls)
  show ?case
    using Cons.IH by (simp add: Let_def split: sum.split prod.split option.split)
qed

lemma import_dump_counter:
  assumes "\<And>t ls. nextAccountID (snd (lines t ls)) = nextAccountID t"
  shows "nextAccountID (snd (import_dump lines s e)) = nextAccountID s"
  using assms by (cases e) (simp_all add: import_dump_def Let_def)

lemma Import_counter: "nextAccountID (snd (Import s fs dir)) = nextAccountID s"
proof -
  note a = import_dump_counter [of import_account_lines, OF import_account_lines_counter]
  note p = import_dump_counter [of import_payment_lines, OF import_payment_lines_counter]
  note f = import_dump_counter [of import_favorite_lines, OF import_favorite_lines_counter]
  obtain e1 s1 where r1: "import_dump import_account_lines s (entry fs (dir @ ''/accounts.dump'')) = (e1, s1)"
    by (cases "import_dump import_account_lines s (entry fs (dir @ ''/accounts.dump''))")
  obtain e2 s2 where r2: "import_dump import_payment_lines s1 (entry fs (dir @ ''/payments.dump'')) = (e2, s2)"
    by (cases "import_dump import_payment_lines s1 (entry fs (dir @ ''/payments.dump''))")
  have n1: "nextAccountID s1 = nextAccountID s" using a [of s "entry fs (dir @ ''/accounts.dump'')"] r1 by simp
  have n2: "nextAccountID s2 = nextAccountID s1" using p [of s1 "entry fs (dir @ ''/payments.dump'')"] r2 by simp
  have n3: "nextAccountID (snd (import_dump import_favorite_lines s2 (entry fs (dir @ ''/favorites.dump''))))
      = nextAccountID s2" by (rule f)
  show ?thesis
    using r1 r2 n1 n2 n3 by (cases e1; cases e2) (simp_all add: Import_def)
qed

lemma ImportFromFile_counter: "nextAccountID (snd (ImportFromFile s fs path)) = nextAccountID s"
proof (cases "entry fs path")
  case (Contents bytes)
  show ?thesis
    unfolding ImportFromFile_Contents [OF Contents]
    using import_records_other_fields [of s] by simp
qed (simp_all add: ImportFromFile_def)

lemma RegisterAccount_fresh:
  "phone \<notin> Phone ` set (accounts s) \<Longrightarrow>
     RegisterAccount s phone =
       (Inr \<lparr>ID = nextAccountID s + 1, Phone = phone, Balance = 0\<rparr>,
        s\<lparr>nextAccountID := nextAccountID s + 1,
          accounts := accounts s @ [\<lparr>ID = nextAccountID s + 1, Phone = phone, Balance = 0\<rparr>]\<rparr>)"
  by (simp add: RegisterAccount_def phone_registered_iff Let_def)

lemma register_all_fresh:
  "distinct phones \<Longrightarrow> set phones \<inter> Phone ` set (accounts s) = {} \<Longrightarrow>
     nextAccountID (register_all s phones) = nextAccountID s + of_nat (length phones) \<and>
     set (accounts s) \<subseteq> set (accounts (register_all s phones)) \<and>
     Phone ` set (accounts (register_all s phones)) = Phone ` set (accounts s) \<union> set phones"
proof (induction phones arbitrary: s)
  case Nil
  then show ?case by simp
next
  case (Cons p ps)
  let ?s1 = "s\<lparr>nextAccountID := nextAccountID s + 1,
          accounts := accounts s @ [\<lparr>ID = nextAccountID s + 1, Phone = p, Balance = 0\<rparr>]\<rparr>"
  from Cons.prems have fresh: "p \<notin> Phone ` set (accounts s)" by auto
  have s1: "snd (RegisterAccount s p) = ?s1" using RegisterAccount_fresh [OF fresh] by simp
  from Cons.prems have d: "distinct ps" and i: "set ps \<inter> Phone ` set (accounts ?s1) = {}"
    by auto
  from Cons.IH [OF d i] show ?case
    unfolding register_all.simps s1 by (auto simp: add.assoc)
qed

lemma fresh_phones_exist:
  "\<exists>phones :: Phone list. length phones = k \<and> distinct phones \<and> set phones \<inter> Phone ` set as = {}"
proof -
  have "infinite (UNIV - Phone ` set as)"
    by (rule Diff_infinite_finite) (simp_all add: infinite_UNIV_listI)
  then obtain B where B: "finite B" "card B = k" "B \<subseteq> UNIV - Phone ` set as"
    using infinite_arbitrarily_large by blast
  from finite_distinct_list [OF B(1)] obtain phones where p: "set phones = B" "distinct phones"
    by blast
  with B have "length phones = k" using distinct_card [of phones] by simp
  with p B(3) show ?thesis by blast
qed

lemma duplicate_id_reachable:
  assumes x: "x \<in> set (accounts s)" and ne: "ID x \<noteq> nextAccountID s"
  shows "\<exists>phones phone acc s'.
     RegisterAccount (register_all s phones) phone = (Inr acc, s') \<and>
     ID acc = ID x \<and> x \<in> set (accounts (register_all s phones)) \<and>
     \<not> distinct (map ID (accounts s'))"
proof -
  let ?k = "unat (ID x - nextAccountID s)"
  from ne have "ID x - nextAccountID s \<noteq> 0" by simp
  then have k: "0 < ?k" by (simp add: unat_gt_0)
  from fresh_phones_exist [of ?k "accounts s"] obtain all_phones :: "Phone list"
    where ap: "length all_phones = ?k" "distinct all_phones"
      "set all_phones \<inter> Phone ` set (accounts s) = {}" by blast
  from k ap(1) obtain phones phone where sp: "all_phones = phones @ [phone]"
    by (cases all_phones rule: rev_cases) auto
  from ap sp have d: "distinct phones" and i: "set phones \<inter> Phone ` set (accounts s) = {}"
    and l: "Suc (length phones) = ?k" and pf: "phone \<notin> set phones" "phone \<notin> Phone ` set (accounts s)"
    by auto
  let ?s1 = "register_all s phones"
  from register_all_fresh [OF d i]
  have n: "nextAccountID ?s1 = nextAccountID s + of_nat (length phones)"
    and keep: "set (accounts s) \<subseteq> set (accounts ?s1)"
    and ph: "Phone ` set (accounts ?s1) = Phone ` set (accounts s) \<union> set phones" by simp_all
  from pf ph have fresh: "phone \<notin> Phone ` set (accounts ?s1)" by simp
  have "nextAccountID ?s1 + 1 = nextAccountID s + of_nat (Suc (length phones))"
    using n by (simp add: add.assoc)
  also have "\<dots> = nextAccountID s + (ID x - nextAccountID s)"
    unfolding l by simp
  finally have idx: "nextAccountID ?s1 + 1 = ID x" by simp
  let ?acc = "\<lparr>ID = ID x, Phone = phone, Balance = 0\<rparr>"
  let ?s' = "?s1\<lparr>nextAccountID := ID x, accounts := accounts ?s1 @ [?acc]\<rparr>"
  have r: "RegisterAccount ?s1 phone = (Inr ?acc, ?s')"
    using RegisterAccount_fresh [OF fresh] unfolding idx .
  from x keep have xin: "x \<in> set (accounts ?s1)" by auto
  then have "ID x \<in> set (map ID (accounts ?s1))" by simp
  then have nd: "\<not> distinct (map ID (accounts ?s'))" by simp
  from r xin nd show ?thesis by (intro exI [of _ phones] exI [of _ phone] exI [of _ ?acc] exI [of _ ?s']) simp
qed

lemma imported_one_eq:
  "imported_one = \<lparr>nextAccountID = 0,
     accounts = [\<lparr>ID = 1, Phone = ''+992000000001'', Balance = 0\<rparr>], payments = [], favorites = []\<rparr>"
proof -
  have c: "entry (disk_with ''export.txt'' ''1;+992000000001;0|'') ''export.txt'' =
      Contents ''1;+992000000001;0|''"
    by (simp add: disk_with_def)
  show ?thesis
    unfolding imported_one_def ImportFromFile_Contents [OF c]
    by (simp add: ParseInt_def digit_val_def Let_def empty_service_def)
qed

subsection \<open>FindPaymentByID\<close>

text \<open>
  Claim C9. \<^verbatim>\<open>FindPaymentByID\<close> returns the payment whose ID is the one given, and
  \<^verbatim>\<open>ErrPaymentNotFound\<close> when no payment has it. The slot returned is the last of the
  matching slots: if the collection is \<open>before @ p # after\<close>, \<open>p\<close> has the ID and nothing in
  \<open>after\<close> has it, the result is \<open>p\<close>, whatever \<open>before\<close> holds. So among payments
  sharing the ID, the one added last is returned.
\<close>

theorem FindPaymentByID_spec:
  "FindPaymentByID s paymentID =
     (if matching_slots (payments s) paymentID = [] then Inl ErrPaymentNotFound
      else Inr (last (matching_slots (payments s) paymentID))) \<and>
   (paymentID \<notin> PaymentID ` set (payments s) \<longrightarrow>
      FindPaymentByID s paymentID = Inl ErrPaymentNotFound) \<and>
   (payments s = before @ p # after \<and> PaymentID p = paymentID \<and>
    paymentID \<notin> PaymentID ` set after \<longrightarrow>
      FindPaymentByID s paymentID = Inr (length before) \<and> payment_at s (length before) = p)"
proof (intro conjI impI)
  show "FindPaymentByID s paymentID =
     (if matching_slots (payments s) paymentID = [] then Inl ErrPaymentNotFound
      else Inr (last (matching_slots (payments s) paymentID)))"
    by (simp add: FindPaymentByID_def find_payment_from_matching)
next
  assume "paymentID \<notin> PaymentID ` set (payments s)"
  then have "\<forall>q \<in> set (payments s). PaymentID q \<noteq> paymentID" by force
  then show "FindPaymentByID s paymentID = Inl ErrPaymentNotFound"
    by (simp add: FindPaymentByID_def find_payment_from_no_match)
next
  assume a: "payments s = before @ p # after \<and> PaymentID p = paymentID \<and>
    paymentID \<notin> PaymentID ` set after"
  then have "paymentID \<notin> PaymentID ` set after" by simp
  then have "\<forall>q \<in> set after. PaymentID q \<noteq> paymentID" by force
  with a show "FindPaymentByID s paymentID = Inr (length before)"
    by (simp add: FindPaymentByID_def find_payment_from_last)
  from a show "payment_at s (length before) = p"
    by (simp add: payment_at_def)
qed

text \<open>
  The theorem at a collection where the first and the third payment share the ID \<open>x\<close>:
  the third one, of amount 30, is returned; the ID \<open>z\<close> is not found.
\<close>

theorem FindPaymentByID_spec_witness:
  "''z'' \<notin> PaymentID ` set (payments two_same_id) \<and>
   FindPaymentByID two_same_id ''z'' = Inl ErrPaymentNotFound \<and>
   payments two_same_id =
     [\<lparr>PaymentID = ''x'', AccountID = 1, Amount = 10, Category = ''a'', Status = ''INPROGRESS''\<rparr>,
      \<lparr>PaymentID = ''y'', AccountID = 1, Amount = 20, Category = ''b'', Status = ''INPROGRESS''\<rparr>]
     @ \<lparr>PaymentID = ''x'', AccountID = 1, Amount = 30, Category = ''c'', Status = ''INPROGRESS''\<rparr> # [] \<and>
   ''x'' \<notin> PaymentID ` set ([] :: payment list) \<and>
   FindPaymentByID two_same_id ''x'' = Inr 2 \<and>
   Amount (payment_at two_same_id 2) = 30"
proof -
  let ?before =
    "[\<lparr>PaymentID = ''x'', AccountID = 1, Amount = 10, Category = ''a'', Status = ''INPROGRESS''\<rparr>,
      \<lparr>PaymentID = ''y'', AccountID = 1, Amount = 20, Category = ''b'', Status = ''INPROGRESS''\<rparr>]"
  let ?p = "\<lparr>PaymentID = ''x'', AccountID = 1, Amount = 30, Category = ''c'', Status = ''INPROGRESS''\<rparr>"
  have none: "''z'' \<notin> PaymentID ` set (payments two_same_id)"
    by (simp add: two_same_id_def)
  have split: "payments two_same_id = ?before @ ?p # [] \<and> PaymentID ?p = ''x'' \<and>
      ''x'' \<notin> PaymentID ` set ([] :: payment list)"
    by (simp add: two_same_id_def)
  from FindPaymentByID_spec [of two_same_id "''z''" "[]" ?p "[]"] none
  have r1: "FindPaymentByID two_same_id ''z'' = Inl ErrPaymentNotFound"
    by blast
  from FindPaymentByID_spec [of two_same_id "''x''" ?before ?p "[]"] split
  have r2: "FindPaymentByID two_same_id ''x'' = Inr (length ?before) \<and>
      payment_at two_same_id (length ?before) = ?p"
    by blast
  have len: "length ?before = 2" by simp
  from none split r1 r2 show ?thesis unfolding len by simp
qed

subsection \<open>Pay\<close>

text \<open>
  Claim C2. \<^verbatim>\<open>Pay\<close> checks in this order: an amount \<open>\<le> 0\<close> fails with
  \<^verbatim>\<open>ErrAmountMustBePositive\<close>; otherwise an account ID that no account carries fails
  with \<^verbatim>\<open>ErrAccountNotFound\<close>; otherwise a balance strictly below the amount fails with
  \<^verbatim>\<open>ErrNotEnoughtBalance\<close>; a failed call leaves the service as it was. Otherwise the
  call returns a payment with the generated ID, the given account ID, amount and
  category and the status InProgress, appends it to the payments, and lowers the balance
  of the account found (the first one with that ID) by the amount, without wrap-around.
  The new payment is the one \<^verbatim>\<open>FindPaymentByID\<close> finds under its ID; when the generator
  hands out an ID that no payment has yet, the new payment is the only one with it, and
  payment IDs that were pairwise different stay so.
\<close>

theorem Pay_spec:
  "(amount <=s 0 \<longrightarrow> Pay s paymentID accountID amount category = (Inl ErrAmountMustBePositive, s)) \<and>
   (0 <s amount \<and> accountID \<notin> ID ` set (accounts s) \<longrightarrow>
      Pay s paymentID accountID amount category = (Inl ErrAccountNotFound, s)) \<and>
   (0 <s amount \<and> FindAccountByID s accountID = Inr i \<and> Balance (account_at s i) <s amount \<longrightarrow>
      Pay s paymentID accountID amount category = (Inl ErrNotEnoughtBalance, s)) \<and>
   (0 <s amount \<and> FindAccountByID s accountID = Inr i \<and> amount <=s Balance (account_at s i) \<longrightarrow>
      (let pay = \<lparr>PaymentID = paymentID, AccountID = accountID, Amount = amount,
                  Category = category, Status = PaymentStatusInProgress\<rparr>;
           acc = account_at s i;
           s' = s\<lparr>accounts := (accounts s)[i := acc\<lparr>Balance := Balance acc - amount\<rparr>],
                 payments := payments s @ [pay]\<rparr>
       in Pay s paymentID accountID amount category = (Inr pay, s') \<and>
          i < length (accounts s) \<and> ID acc = accountID \<and>
          sint (Balance (account_at s' i)) = sint (Balance acc) - sint amount \<and>
          FindPaymentByID s' paymentID = Inr (length (payments s)) \<and>
          (paymentID \<notin> PaymentID ` set (payments s) \<longrightarrow>
             matching_slots (payments s') paymentID = [length (payments s)]) \<and>
          (paymentID \<notin> PaymentID ` set (payments s) \<and> distinct (map PaymentID (payments s)) \<longrightarrow>
             distinct (map PaymentID (payments s')))))"
proof (intro conjI impI)
  assume "amount <=s 0"
  then show "Pay s paymentID accountID amount category = (Inl ErrAmountMustBePositive, s)"
    by (simp add: Pay_def)
next
  assume a: "0 <s amount \<and> accountID \<notin> ID ` set (accounts s)"
  then have "\<not> amount <=s 0" by (simp add: word_sless_alt word_sle_eq)
  moreover from a have "find_account_from (accounts s) 0 accountID = None"
    by (simp add: find_account_from_None)
  ultimately show "Pay s paymentID accountID amount category = (Inl ErrAccountNotFound, s)"
    by (simp add: Pay_def)
next
  assume a: "0 <s amount \<and> FindAccountByID s accountID = Inr i \<and> Balance (account_at s i) <s amount"
  then have "\<not> amount <=s 0" by (simp add: word_sless_alt word_sle_eq)
  moreover from a have "find_account_from (accounts s) 0 accountID = Some i"
    by (simp add: FindAccountByID_Inr)
  ultimately show "Pay s paymentID accountID amount category = (Inl ErrNotEnoughtBalance, s)"
    using a by (simp add: Pay_def account_at_def)
next
  assume a: "0 <s amount \<and> FindAccountByID s accountID = Inr i \<and> amount <=s Balance (account_at s i)"
  then have pos: "\<not> amount <=s 0" and enough: "\<not> Balance (account_at s i) <s amount"
    by (simp_all add: word_sless_alt word_sle_eq)
  from a have found: "find_account_from (accounts s) 0 accountID = Some i"
    by (simp add: FindAccountByID_Inr)
  from a have slot: "i < length (accounts s)" "ID (account_at s i) = accountID"
    using FindAccountByID_slot [of s accountID i] by simp_all
  from a have nowrap: "sint (Balance (account_at s i) - amount)
      = sint (Balance (account_at s i)) - sint amount"
    by (simp add: sint_sub_no_wrap)
  show "let pay = \<lparr>PaymentID = paymentID, AccountID = accountID, Amount = amount,
                  Category = category, Status = PaymentStatusInProgress\<rparr>;
           acc = account_at s i;
           s' = s\<lparr>accounts := (accounts s)[i := acc\<lparr>Balance := Balance acc - amount\<rparr>],
                 payments := payments s @ [pay]\<rparr>
       in Pay s paymentID accountID amount category = (Inr pay, s') \<and>
          i < length (accounts s) \<and> ID acc = accountID \<and>
          sint (Balance (account_at s' i)) = sint (Balance acc) - sint amount \<and>
          FindPaymentByID s' paymentID = Inr (length (payments s)) \<and>
          (paymentID \<notin> PaymentID ` set (payments s) \<longrightarrow>
             matching_slots (payments s') paymentID = [length (payments s)]) \<and>
          (paymentID \<notin> PaymentID ` set (payments s) \<and> distinct (map PaymentID (payments s)) \<longrightarrow>
             distinct (map PaymentID (payments s')))"
    unfolding Let_def
  proof (intro conjI impI)
    show "Pay s paymentID accountID amount category =
      (Inr \<lparr>PaymentID = paymentID, AccountID = accountID, Amount = amount,
                  Category = category, Status = PaymentStatusInProgress\<rparr>,
       s\<lparr>accounts := (accounts s)[i := (account_at s i)\<lparr>Balance := Balance (account_at s i) - amount\<rparr>],
                 payments := payments s @ [\<lparr>PaymentID = paymentID, AccountID = accountID, Amount = amount,
                  Category = category, Status = PaymentStatusInProgress\<rparr>]\<rparr>)"
      using pos enough found by (simp add: Pay_def account_at_def Let_def)
  qed (use slot nowrap in \<open>simp_all add: account_at_def FindPaymentByID_def
         find_payment_from_snoc matching_slots_snoc matching_slots_fresh\<close>)
qed

text \<open>
  The four cases of the theorem on a service with one account of balance 100: amount 0,
  unknown account 7, amount 101, and amount 100, which empties the account.
\<close>

theorem Pay_spec_witness:
  "(0::int64) <=s 0 \<and> Pay one_account ''p1'' 1 0 ''food'' = (Inl ErrAmountMustBePositive, one_account) \<and>
   (0 <s (5::int64) \<and> (7::int64) \<notin> ID ` set (accounts one_account)) \<and>
   Pay one_account ''p1'' 7 5 ''food'' = (Inl ErrAccountNotFound, one_account) \<and>
   (0 <s (101::int64) \<and> FindAccountByID one_account 1 = Inr 0 \<and>
     Balance (account_at one_account 0) <s 101) \<and>
   Pay one_account ''p1'' 1 101 ''food'' = (Inl ErrNotEnoughtBalance, one_account) \<and>
   (0 <s (100::int64) \<and> FindAccountByID one_account 1 = Inr 0 \<and>
     100 <=s Balance (account_at one_account 0)) \<and>
   Pay one_account ''p1'' 1 100 ''food'' =
     (Inr \<lparr>PaymentID = ''p1'', AccountID = 1, Amount = 100, Category = ''food'',
           Status = PaymentStatusInProgress\<rparr>,
      \<lparr>nextAccountID = 1, accounts = [\<lparr>ID = 1, Phone = ''+1'', Balance = 0\<rparr>],
       payments = [\<lparr>PaymentID = ''p1'', AccountID = 1, Amount = 100, Category = ''food'',
           Status = PaymentStatusInProgress\<rparr>], favorites = []\<rparr>)"
proof -
  have h1: "(0::int64) <=s 0" by simp
  have h2: "0 <s (5::int64) \<and> (7::int64) \<notin> ID ` set (accounts one_account)"
    by (simp add: one_account_def word_sless_alt)
  have f: "FindAccountByID one_account 1 = Inr 0"
    by (simp add: one_account_def FindAccountByID_def)
  have h3: "0 <s (101::int64) \<and> FindAccountByID one_account 1 = Inr 0 \<and>
     Balance (account_at one_account 0) <s 101"
    using f by (simp add: one_account_def account_at_def word_sless_alt)
  have h4: "0 <s (100::int64) \<and> FindAccountByID one_account 1 = Inr 0 \<and>
     100 <=s Balance (account_at one_account 0)"
    using f by (simp add: one_account_def account_at_def word_sless_alt)
  from Pay_spec [of 0 one_account "''p1''" 1 "''food''" 0] h1
  have r1: "Pay one_account ''p1'' 1 0 ''food'' = (Inl ErrAmountMustBePositive, one_account)"
    by blast
  from Pay_spec [of 5 one_account "''p1''" 7 "''food''" 0] h2
  have r2: "Pay one_account ''p1'' 7 5 ''food'' = (Inl ErrAccountNotFound, one_account)"
    by blast
  from Pay_spec [of 101 one_account "''p1''" 1 "''food''" 0] h3
  have r3: "Pay one_account ''p1'' 1 101 ''food'' = (Inl ErrNotEnoughtBalance, one_account)"
    by blast
  from Pay_spec [of 100 one_account "''p1''" 1 "''food''" 0] h4
  have r4: "Pay one_account ''p1'' 1 100 ''food'' =
     (Inr \<lparr>PaymentID = ''p1'', AccountID = 1, Amount = 100, Category = ''food'',
           Status = PaymentStatusInProgress\<rparr>,
      one_account\<lparr>accounts := (accounts one_account)[0 := (account_at one_account 0)
           \<lparr>Balance := Balance (account_at one_account 0) - 100\<rparr>],
        payments := payments one_account @ [\<lparr>PaymentID = ''p1'', AccountID = 1, Amount = 100,
           Category = ''food'', Status = PaymentStatusInProgress\<rparr>]\<rparr>)"
    unfolding Let_def by blast
  have e: "one_account\<lparr>accounts := (accounts one_account)[0 := (account_at one_account 0)
           \<lparr>Balance := Balance (account_at one_account 0) - 100\<rparr>],
        payments := payments one_account @ [\<lparr>PaymentID = ''p1'', AccountID = 1, Amount = 100,
           Category = ''food'', Status = PaymentStatusInProgress\<rparr>]\<rparr> =
      \<lparr>nextAccountID = 1, accounts = [\<lparr>ID = 1, Phone = ''+1'', Balance = 0\<rparr>],
       payments = [\<lparr>PaymentID = ''p1'', AccountID = 1, Amount = 100, Category = ''food'',
           Status = PaymentStatusInProgress\<rparr>], favorites = []\<rparr>"
    by (simp add: one_account_def account_at_def)
  from h1 h2 h3 h4 r1 r2 r3 r4 show ?thesis unfolding e by simp
qed
subsection \<open>RegisterAccount\<close>

text \<open>
  Claim C8. A phone that some account already carries is refused with
  \<^verbatim>\<open>ErrPhoneRegistered\<close> and the service is left as it was. A phone that no account carries
  is registered: the counter is incremented, the account returned has the new counter value
  as ID, the phone, and balance 0, and it is appended to the accounts. Registering the same
  phone again then fails with \<^verbatim>\<open>ErrPhoneRegistered\<close> and the number of accounts stays.
\<close>

theorem RegisterAccount_spec:
  "(phone \<in> Phone ` set (accounts s) \<longrightarrow>
      RegisterAccount s phone = (Inl ErrPhoneRegistered, s)) \<and>
   (phone \<notin> Phone ` set (accounts s) \<longrightarrow>
      (let acc = \<lparr>ID = nextAccountID s + 1, Phone = phone, Balance = 0\<rparr>;
           s' = s\<lparr>nextAccountID := nextAccountID s + 1, accounts := accounts s @ [acc]\<rparr>
       in RegisterAccount s phone = (Inr acc, s') \<and>
          RegisterAccount s' phone = (Inl ErrPhoneRegistered, s') \<and>
          length (accounts (snd (RegisterAccount s' phone))) = length (accounts s')))"
  by (simp add: RegisterAccount_def phone_registered_iff Let_def)

text \<open>The theorem at the first registration of \<^verbatim>\<open>main\<close>, and its repetition.\<close>

theorem RegisterAccount_spec_witness:
  "''+992000000001'' \<notin> Phone ` set (accounts empty_service) \<and>
   RegisterAccount empty_service ''+992000000001'' =
     (Inr \<lparr>ID = 1, Phone = ''+992000000001'', Balance = 0\<rparr>,
      \<lparr>nextAccountID = 1, accounts = [\<lparr>ID = 1, Phone = ''+992000000001'', Balance = 0\<rparr>],
       payments = [], favorites = []\<rparr>) \<and>
   ''+992000000001'' \<in> Phone ` set (accounts
      \<lparr>nextAccountID = 1, accounts = [\<lparr>ID = 1, Phone = ''+992000000001'', Balance = 0\<rparr>],
       payments = [], favorites = []\<rparr>) \<and>
   RegisterAccount
      \<lparr>nextAccountID = 1, accounts = [\<lparr>ID = 1, Phone = ''+992000000001'', Balance = 0\<rparr>],
       payments = [], favorites = []\<rparr> ''+992000000001'' =
     (Inl ErrPhoneRegistered,
      \<lparr>nextAccountID = 1, accounts = [\<lparr>ID = 1, Phone = ''+992000000001'', Balance = 0\<rparr>],
       payments = [], favorites = []\<rparr>)"
proof -
  let ?s1 = "\<lparr>nextAccountID = 1, accounts = [\<lparr>ID = 1, Phone = ''+992000000001'', Balance = 0\<rparr>],
       payments = [], favorites = []\<rparr>"
  have h1: "''+992000000001'' \<notin> Phone ` set (accounts empty_service)"
    by (simp add: empty_service_def)
  have h2: "''+992000000001'' \<in> Phone ` set (accounts ?s1)" by simp
  from RegisterAccount_spec [of "''+992000000001''" empty_service] h1
  have r1: "RegisterAccount empty_service ''+992000000001'' = (Inr \<lparr>ID = 1, Phone = ''+992000000001'', Balance = 0\<rparr>, ?s1)"
    by (simp add: empty_service_def Let_def)
  from RegisterAccount_spec [of "''+992000000001''" ?s1] h2
  have r2: "RegisterAccount ?s1 ''+992000000001'' = (Inl ErrPhoneRegistered, ?s1)"
    by blast
  from h1 r1 h2 r2 show ?thesis by blast
qed

subsection \<open>Amount checks of Pay and Deposit\<close>

text \<open>
  Claim C7. \<^verbatim>\<open>Pay\<close> refuses every amount \<open>\<le> 0\<close> with \<^verbatim>\<open>ErrAmountMustBePositive\<close>,
  whatever the accounts are. \<^verbatim>\<open>Deposit\<close> refuses with that error exactly the amounts
  \<open>< 0\<close>: a negative amount fails with it, an amount \<open>\<ge> 0\<close> never does. Depositing 0 on an
  existing account succeeds and changes nothing, the balance included.
\<close>

theorem Pay_Deposit_asymmetry:
  "(amount <=s 0 \<longrightarrow> Pay s paymentID accountID amount category = (Inl ErrAmountMustBePositive, s)) \<and>
   (amount <s 0 \<longrightarrow> Deposit s accountID amount = (Some ErrAmountMustBePositive, s)) \<and>
   (0 <=s amount \<longrightarrow> fst (Deposit s accountID amount) \<noteq> Some ErrAmountMustBePositive) \<and>
   (accountID \<in> ID ` set (accounts s) \<longrightarrow> Deposit s accountID 0 = (None, s))"
proof (intro conjI impI)
  assume "amount <=s 0"
  then show "Pay s paymentID accountID amount category = (Inl ErrAmountMustBePositive, s)"
    by (simp add: Pay_def)
next
  assume "amount <s 0"
  then show "Deposit s accountID amount = (Some ErrAmountMustBePositive, s)"
    by (simp add: Deposit_def)
next
  assume "0 <=s amount"
  then have "\<not> amount <s 0" by (simp add: word_sle_eq word_sless_alt)
  then show "fst (Deposit s accountID amount) \<noteq> Some ErrAmountMustBePositive"
    by (simp add: Deposit_def FindAccountByID_def Let_def split: option.split)
next
  assume "accountID \<in> ID ` set (accounts s)"
  then obtain i where i: "find_account_from (accounts s) 0 accountID = Some i"
    using find_account_from_None [of "accounts s" 0 accountID] by auto
  from find_account_from_Some [OF i] have "i < length (accounts s)" by simp
  then show "Deposit s accountID 0 = (None, s)"
    using i by (simp add: Deposit_def FindAccountByID_def account_at_def)
qed

text \<open>
  The theorem on the service with one account of balance 100: paying 0 and depositing -1
  fail, depositing 0 on account 1 succeeds and leaves the service unchanged.
\<close>

theorem Pay_Deposit_asymmetry_witness:
  "(0::int64) <=s 0 \<and> Pay one_account ''p1'' 1 0 ''food'' = (Inl ErrAmountMustBePositive, one_account) \<and>
   (- 1 :: int64) <s 0 \<and> Deposit one_account 1 (- 1) = (Some ErrAmountMustBePositive, one_account) \<and>
   (1::int64) \<in> ID ` set (accounts one_account) \<and> Deposit one_account 1 0 = (None, one_account)"
proof -
  have h1: "(0::int64) <=s 0" by simp
  have h2: "(- 1 :: int64) <s 0" by simp
  have h3: "(1::int64) \<in> ID ` set (accounts one_account)" by (simp add: one_account_def)
  from Pay_Deposit_asymmetry [of 0 one_account "''p1''" 1 "''food''"] h1 h3
  have r1: "Pay one_account ''p1'' 1 0 ''food'' = (Inl ErrAmountMustBePositive, one_account)"
    and r3: "Deposit one_account 1 0 = (None, one_account)"
    by blast+
  from Pay_Deposit_asymmetry [of "- 1" one_account "''p1''" 1 "''food''"] h2
  have r2: "Deposit one_account 1 (- 1) = (Some ErrAmountMustBePositive, one_account)"
    by blast
  from h1 h2 h3 r1 r2 r3 show ?thesis by simp
qed
subsection \<open>Balance after a sequence of operations\<close>

text \<open>
  Claim C1, as the specification words it, fails: on an account of balance 100, paying 100
  and rejecting that payment leaves the balance at 100, while initial balance plus
  deposits, minus the payments never rejected (there is none), plus the refunds (100)
  is 200. The refund of a rejected payment only makes up for its debit.
\<close>

theorem balance_formula_counterexample:
  "FindAccountByID one_account 1 = Inr 0 \<and>
   Balance (account_at (run one_account pay_then_reject) 0) = 100 \<and>
   claimed_balance one_account 1 0 pay_then_reject = 200 \<and>
   Balance (account_at (run one_account pay_then_reject) 0)
     \<noteq> claimed_balance one_account 1 0 pay_then_reject"
proof -
  have f: "FindAccountByID one_account 1 = Inr 0"
    by (simp add: one_account_def FindAccountByID_def)
  have ok: "\<not> isl (fst (Pay one_account ''p1'' 1 100 ''food''))"
    by (simp add: Pay_def one_account_def Let_def word_sless_alt word_sle_eq)
  have r: "Balance (account_at (run one_account pay_then_reject) 0) = 100"
    by (simp add: pay_then_reject_def paid_one rejected_one account_at_def)
  have c: "claimed_balance one_account 1 0 pay_then_reject = 200"
    using ok
    by (simp add: claimed_balance_def pay_then_reject_def paid_one rejected_one
        FindPaymentByID_def payment_at_def)
       (simp add: one_account_def account_at_def)
  from f r c show ?thesis by simp
qed

text \<open>
  Claim C1, amended. For every sequence of \<^verbatim>\<open>Pay\<close>, \<^verbatim>\<open>Deposit\<close> and \<^verbatim>\<open>Reject\<close> calls and every
  account ID \<open>a\<close> that the service knows, the account found under \<open>a\<close> stays the same
  slot, and its final balance is its initial balance plus the deposits made on it, minus
  the amounts of all payments made from it (rejected later or not), plus the amounts that
  successful \<^verbatim>\<open>Reject\<close> calls refunded to it, in wrapping 64-bit arithmetic. A \<^verbatim>\<open>Reject\<close> that
  finds the payment and its account sets the status to Fail and credits the whole amount,
  whatever the status was before; so does a second \<^verbatim>\<open>Reject\<close> of the same ID, after which
  the account holds the amount twice over.
\<close>

theorem balance_after_operations:
  "(FindAccountByID s a = Inr i \<longrightarrow>
      FindAccountByID (run s ops) a = Inr i \<and>
      Balance (account_at (run s ops) i) =
        Balance (account_at s i) + deposited s a ops - paid s a ops + refunded s a ops) \<and>
   (FindPaymentByID s paymentID = Inr j \<and>
    FindAccountByID s (AccountID (payment_at s j)) = Inr k \<longrightarrow>
      Reject s paymentID =
        (None, s\<lparr>payments := (payments s)[j := (payment_at s j)\<lparr>Status := PaymentStatusFail\<rparr>],
                 accounts := (accounts s)[k := (account_at s k)
                   \<lparr>Balance := Balance (account_at s k) + Amount (payment_at s j)\<rparr>]\<rparr>) \<and>
      fst (Reject (snd (Reject s paymentID)) paymentID) = None \<and>
      Balance (account_at (snd (Reject (snd (Reject s paymentID)) paymentID)) k) =
        Balance (account_at s k) + Amount (payment_at s j) + Amount (payment_at s j))"
proof (intro conjI impI)
  assume f: "FindAccountByID s a = Inr i"
  from run_balance [OF f, of ops]
  show "FindAccountByID (run s ops) a = Inr i"
    and "Balance (account_at (run s ops) i) =
        Balance (account_at s i) + deposited s a ops - paid s a ops + refunded s a ops"
    by simp_all
next
  assume h: "FindPaymentByID s paymentID = Inr j \<and>
    FindAccountByID s (AccountID (payment_at s j)) = Inr k"
  then have p: "FindPaymentByID s paymentID = Inr j"
    and a: "FindAccountByID s (AccountID (payment_at s j)) = Inr k" by simp_all
  from Reject_found [OF p a]
  show "Reject s paymentID =
        (None, s\<lparr>payments := (payments s)[j := (payment_at s j)\<lparr>Status := PaymentStatusFail\<rparr>],
                 accounts := (accounts s)[k := (account_at s k)
                   \<lparr>Balance := Balance (account_at s k) + Amount (payment_at s j)\<rparr>]\<rparr>)" .
  from Reject_again [OF p a]
  show "fst (Reject (snd (Reject s paymentID)) paymentID) = None"
    and "Balance (account_at (snd (Reject (snd (Reject s paymentID)) paymentID)) k) =
        Balance (account_at s k) + Amount (payment_at s j) + Amount (payment_at s j)"
    by simp_all
qed

text \<open>
  The theorem on the account of balance 100: a deposit of 50, a payment of 100 and two
  rejections of it end at 100 + 50 - 100 + 200 = 250; and on the state after the payment,
  one rejection restores 100 and the second one brings the balance to 200.
\<close>

theorem balance_after_operations_witness:
  "FindAccountByID one_account 1 = Inr 0 \<and>
   Balance (account_at one_account 0) = 100 \<and>
   deposited one_account 1 deposit_pay_reject_twice = 50 \<and>
   paid one_account 1 deposit_pay_reject_twice = 100 \<and>
   refunded one_account 1 deposit_pay_reject_twice = 200 \<and>
   Balance (account_at (run one_account deposit_pay_reject_twice) 0) = 250 \<and>
   FindPaymentByID paid_service ''p1'' = Inr 0 \<and>
   FindAccountByID paid_service (AccountID (payment_at paid_service 0)) = Inr 0 \<and>
   fst (Reject paid_service ''p1'') = None \<and>
   Balance (account_at (snd (Reject paid_service ''p1'')) 0) = 100 \<and>
   Status (payment_at (snd (Reject paid_service ''p1'')) 0) = PaymentStatusFail \<and>
   fst (Reject (snd (Reject paid_service ''p1'')) ''p1'') = None \<and>
   Balance (account_at (snd (Reject (snd (Reject paid_service ''p1'')) ''p1'')) 0) = 200"
proof -
  have f: "FindAccountByID one_account 1 = Inr 0"
    by (simp add: one_account_def FindAccountByID_def)
  have b: "Balance (account_at one_account 0) = 100"
    by (simp add: one_account_def account_at_def)
  have d: "deposited one_account 1 deposit_pay_reject_twice = 50"
    by (simp add: deposit_pay_reject_twice_def one_account_def Deposit_def FindAccountByID_def
        account_at_def Let_def word_sless_alt)
  have p: "paid one_account 1 deposit_pay_reject_twice = 100"
    by (simp add: deposit_pay_reject_twice_def one_account_def Deposit_def Pay_def
        FindAccountByID_def account_at_def Let_def word_sless_alt word_sle_eq)
  have r: "refunded one_account 1 deposit_pay_reject_twice = 200"
    by (simp add: deposit_pay_reject_twice_def one_account_def Deposit_def Pay_def Reject_def
        FindPaymentByID_def FindAccountByID_def payment_at_def account_at_def Let_def
        word_sless_alt word_sle_eq)
  have fp: "FindPaymentByID paid_service ''p1'' = Inr 0"
    by (simp add: paid_service_def FindPaymentByID_def)
  have fa: "FindAccountByID paid_service (AccountID (payment_at paid_service 0)) = Inr 0"
    by (simp add: paid_service_def FindAccountByID_def payment_at_def)
  from balance_after_operations [of one_account 1 0 deposit_pay_reject_twice] f
  have e1: "Balance (account_at (run one_account deposit_pay_reject_twice) 0) =
      Balance (account_at one_account 0) + deposited one_account 1 deposit_pay_reject_twice
        - paid one_account 1 deposit_pay_reject_twice
        + refunded one_account 1 deposit_pay_reject_twice"
    by blast
  from balance_after_operations [of paid_service 1 0 "[]" "''p1''" 0 0] fp fa
  have e2: "Reject paid_service ''p1'' =
        (None, paid_service\<lparr>payments := (payments paid_service)[0 := (payment_at paid_service 0)
                   \<lparr>Status := PaymentStatusFail\<rparr>],
                 accounts := (accounts paid_service)[0 := (account_at paid_service 0)
                   \<lparr>Balance := Balance (account_at paid_service 0) + Amount (payment_at paid_service 0)\<rparr>]\<rparr>)"
    and e3: "fst (Reject (snd (Reject paid_service ''p1'')) ''p1'') = None"
    and e4: "Balance (account_at (snd (Reject (snd (Reject paid_service ''p1'')) ''p1'')) 0) =
        Balance (account_at paid_service 0) + Amount (payment_at paid_service 0)
          + Amount (payment_at paid_service 0)"
    by blast+
  have v: "Balance (account_at paid_service 0) = 0" "Amount (payment_at paid_service 0) = 100"
    by (simp_all add: paid_service_def account_at_def payment_at_def)
  have e5: "Balance (account_at (snd (Reject paid_service ''p1'')) 0) = 100"
    "Status (payment_at (snd (Reject paid_service ''p1'')) 0) = PaymentStatusFail"
    unfolding e2 by (simp_all add: paid_service_def account_at_def payment_at_def)
  from e1 have e1': "Balance (account_at (run one_account deposit_pay_reject_twice) 0) = 250"
    unfolding b d p r by simp
  from f b d p r e1' fp fa e2 e3 e4 e5 show ?thesis unfolding v by simp
qed
subsection \<open>SumPayments\<close>

text \<open>
  Claim C3. For every worker count \<open>\<ge> 0\<close>, \<^verbatim>\<open>SumPayments\<close> returns, without a panic, the
  sum of the amounts of all payments: the chunks handed to the workers, put one after the
  other, are the payment sequence, and the subtotals add up to the same total in whatever
  order the workers add them. With worker count 0 there is one chunk, the whole sequence.
  With a worker count \<open>w > 0\<close> there are \<open>w\<close> chunks, the \<open>j\<close>-th of the first \<open>w - 1\<close>
  being the \<open>k\<close> payments from position \<open>j * k\<close> on, where \<open>k\<close> is the number of payments
  divided by \<open>w\<close>, and the last one being all the rest, \<open>k\<close> payments and the whole
  remainder. On the amounts 100, 250, 50, 10, 5 three workers get [100], [250] and
  [50, 10, 5], and the result is 415 with 3 workers, with 1 and with 0.
\<close>

theorem SumPayments_spec:
  "(0 <=s goroutines \<longrightarrow>
      SumPayments s goroutines = Inr (total_amount s) \<and>
      (\<exists>chunks. chunks_of s goroutines = Inr chunks \<and> concat chunks = payments s \<and>
         (\<forall>order. mset order = mset (map (\<lambda>chunk. subtotal chunk 0) chunks) \<longrightarrow>
            add_all order 0 = total_amount s))) \<and>
   chunks_of s 0 = Inr [payments s] \<and>
   (0 <s goroutines \<longrightarrow>
      (let w = nat (sint goroutines); k = length (payments s) div w
       in chunks_of s goroutines =
            Inr (map (nth_chunk (payments s) k) [0..<w - 1] @ [drop ((w - 1) * k) (payments s)]) \<and>
          (\<forall>j < w - 1. length (nth_chunk (payments s) k j) = k) \<and>
          length (drop ((w - 1) * k) (payments s)) = k + length (payments s) mod w)) \<and>
   map Amount (payments five_payments) = [100, 250, 50, 10, 5] \<and>
   chunk_amounts (chunks_of five_payments 3) = Inr [[100], [250], [50, 10, 5]] \<and>
   SumPayments five_payments 3 = Inr 415 \<and>
   SumPayments five_payments 1 = Inr 415 \<and>
   SumPayments five_payments 0 = Inr 415"
proof -
  have general: "SumPayments s g = Inr (total_amount s) \<and>
      (\<exists>chunks. chunks_of s g = Inr chunks \<and> concat chunks = payments s \<and>
         (\<forall>order. mset order = mset (map (\<lambda>chunk. subtotal chunk 0) chunks) \<longrightarrow>
            add_all order 0 = total_amount s))" if nonneg: "0 <=s g" for s g
  proof -
    from chunks_of_concat [OF nonneg, of s] obtain chunks
      where c: "chunks_of s g = Inr chunks" "concat chunks = payments s" by blast
    have t: "add_all (map (\<lambda>chunk. subtotal chunk 0) chunks) 0 = total_amount s"
      using c(2) by (simp add: sum_chunks total_amount_def)
    have "\<forall>order. mset order = mset (map (\<lambda>chunk. subtotal chunk 0) chunks) \<longrightarrow>
            add_all order 0 = total_amount s"
      using add_all_any_order t by metis
    with c t show ?thesis by (simp add: SumPayments_def)
  qed
  have sized: "let w = nat (sint goroutines); k = length (payments s) div w
       in chunks_of s goroutines =
            Inr (map (nth_chunk (payments s) k) [0..<w - 1] @ [drop ((w - 1) * k) (payments s)]) \<and>
          (\<forall>j < w - 1. length (nth_chunk (payments s) k j) = k) \<and>
          length (drop ((w - 1) * k) (payments s)) = k + length (payments s) mod w"
    if pos: "0 <s goroutines"
  proof -
    from pos have w: "0 < nat (sint goroutines)" by (simp add: word_sless_alt)
    show ?thesis
      unfolding Let_def
      using chunks_of_pos [OF pos, of s] inner_chunk_length [of _ "nat (sint goroutines)" "payments s"]
        last_chunk_length [OF w, of "length (payments s)"]
      by simp
  qed
  have total: "total_amount five_payments = 415"
    by (simp add: total_amount_def five_payments_def)
  have n3: "0 <=s (3::int64)" and n1: "0 <=s (1::int64)" and n0: "0 <=s (0::int64)"
    by (simp_all add: word_sle_eq)
  have amounts: "map Amount (payments five_payments) = [100, 250, 50, 10, 5]"
    by (simp add: five_payments_def)
  from general [of goroutines s] sized chunks_of_zero [of s] amounts five_chunks
    general [OF n3, of five_payments] general [OF n1, of five_payments]
    general [OF n0, of five_payments]
  show ?thesis unfolding total by blast
qed

text \<open>The theorem with two workers on the same five payments: chunks of 2 and 3.\<close>

theorem SumPayments_spec_witness:
  "0 <=s (2::int64) \<and> 0 <s (2::int64) \<and>
   SumPayments five_payments 2 = Inr 415 \<and>
   chunk_amounts (chunks_of five_payments 2) = Inr [[100, 250], [50, 10, 5]]"
proof -
  have h1: "0 <=s (2::int64)" and h2: "0 <s (2::int64)"
    by (simp_all add: word_sle_eq word_sless_alt)
  from SumPayments_spec [of 2 five_payments] h1
  have r1: "SumPayments five_payments 2 = Inr (total_amount five_payments)" by blast
  from SumPayments_spec [of 2 five_payments] h2
  have r2: "let w = nat (sint (2::int64)); k = length (payments five_payments) div w
       in chunks_of five_payments 2 =
            Inr (map (nth_chunk (payments five_payments) k) [0..<w - 1]
                 @ [drop ((w - 1) * k) (payments five_payments)])"
    unfolding Let_def by blast
  have total: "total_amount five_payments = 415"
    by (simp add: total_amount_def five_payments_def)
  from r2 have r3: "chunk_amounts (chunks_of five_payments 2) = Inr [[100, 250], [50, 10, 5]]"
    by (simp add: chunk_amounts_def five_payments_def nth_chunk_def Let_def)
  from h1 h2 r1 r3 show ?thesis unfolding total by simp
qed
subsection \<open>ExportToFile and ImportFromFile\<close>

text \<open>
  Claim C5, as stated for every list of accounts, fails: the format does not escape its
  delimiters. The account with ID 1, phone \<^verbatim>\<open>a;7\<close> and balance 0 is written as
  \<^verbatim>\<open>1;a;7;0|\<close>, and a fresh service imports that as ID 1, phone \<^verbatim>\<open>a\<close>, balance 7.
\<close>

theorem export_import_counterexample:
  "ExportToFile semicolon_phone open_disk ''export.txt'' = (None, disk_with ''export.txt'' ''1;a;7;0|'') \<and>
   ImportFromFile empty_service (disk_with ''export.txt'' ''1;a;7;0|'') ''export.txt'' =
     (None, empty_service\<lparr>accounts := [\<lparr>ID = 1, Phone = ''a'', Balance = 7\<rparr>]\<rparr>) \<and>
   accounts semicolon_phone \<noteq> [\<lparr>ID = 1, Phone = ''a'', Balance = 7\<rparr>]"
proof -
  have e: "ExportToFile semicolon_phone open_disk ''export.txt'' =
      (None, disk_with ''export.txt'' ''1;a;7;0|'')"
    by (simp add: ExportToFile_def semicolon_phone_def open_disk_def disk_with_def written_def
        Itoa_small Let_def)
  have c: "entry (disk_with ''export.txt'' ''1;a;7;0|'') ''export.txt'' = Contents ''1;a;7;0|''"
    by (simp add: disk_with_def)
  have i: "ImportFromFile empty_service (disk_with ''export.txt'' ''1;a;7;0|'') ''export.txt'' =
     (None, empty_service\<lparr>accounts := [\<lparr>ID = 1, Phone = ''a'', Balance = 7\<rparr>]\<rparr>)"
    unfolding ImportFromFile_Contents [OF c]
    by (simp add: ParseInt_def digit_val_def Let_def empty_service_def)
  have d: "accounts semicolon_phone \<noteq> [\<lparr>ID = 1, Phone = ''a'', Balance = 7\<rparr>]"
    by (simp add: semicolon_phone_def)
  from e i d show ?thesis by simp
qed

text \<open>
  Claim C5, amended. For every list of accounts whose phones contain neither \<^verbatim>\<open>;\<close> nor
  \<^verbatim>\<open>|\<close>, when \<^verbatim>\<open>ExportToFile\<close> can create and write the file (and the file is readable),
  it succeeds, and \<^verbatim>\<open>ImportFromFile\<close> of what it wrote gives a fresh service exactly these
  accounts (ID, phone and balance) in the same order; into any service it appends them
  after the accounts already there, so importing into the exporting service holds every
  account twice. Whatever the file holds, and whether the import succeeds or not, the
  accounts present before are kept unchanged at the front: nothing is merged or checked.
\<close>

theorem export_import_roundtrip:
  "(list_all clean_phone (accounts s0) \<and> creatable fs path \<and> storable fs path \<and>
    entry fs path \<noteq> Unreadable \<longrightarrow>
      fst (ExportToFile s0 fs path) = None \<and>
      entry (snd (ExportToFile s0 fs path)) path = Contents (export_loop (accounts s0) '''') \<and>
      ImportFromFile empty_service (snd (ExportToFile s0 fs path)) path =
        (None, empty_service\<lparr>accounts := accounts s0\<rparr>) \<and>
      ImportFromFile s (snd (ExportToFile s0 fs path)) path =
        (None, s\<lparr>accounts := accounts s @ accounts s0\<rparr>) \<and>
      ImportFromFile s0 (snd (ExportToFile s0 fs path)) path =
        (None, s0\<lparr>accounts := accounts s0 @ accounts s0\<rparr>)) \<and>
   (\<exists>added. accounts (snd (ImportFromFile s fs path)) = accounts s @ added)"
proof (intro conjI impI)
  assume h: "list_all clean_phone (accounts s0) \<and> creatable fs path \<and> storable fs path \<and>
    entry fs path \<noteq> Unreadable"
  then have clean: "list_all clean_phone (accounts s0)" by simp
  let ?fs = "snd (ExportToFile s0 fs path)"
  from h show ok: "fst (ExportToFile s0 fs path) = None"
    by (simp add: ExportToFile_def Let_def)
  from h show c: "entry ?fs path = Contents (export_loop (accounts s0) '''')"
    by (cases "entry fs path") (simp_all add: ExportToFile_def Let_def written_def)
  have any: "ImportFromFile t ?fs path = (None, t\<lparr>accounts := accounts t @ accounts s0\<rparr>)" for t
    unfolding ImportFromFile_Contents [OF c] by (rule import_exported_string [OF clean])
  from any [of empty_service]
  show "ImportFromFile empty_service ?fs path = (None, empty_service\<lparr>accounts := accounts s0\<rparr>)"
    by (simp add: empty_service_def)
  from any [of s]
  show "ImportFromFile s ?fs path = (None, s\<lparr>accounts := accounts s @ accounts s0\<rparr>)" .
  from any [of s0]
  show "ImportFromFile s0 ?fs path = (None, s0\<lparr>accounts := accounts s0 @ accounts s0\<rparr>)" .
next
  show "\<exists>added. accounts (snd (ImportFromFile s fs path)) = accounts s @ added"
  proof (cases "entry fs path")
    case (Contents bytes)
    show ?thesis
      unfolding ImportFromFile_Contents [OF Contents]
      by (rule import_records_accounts_prefix)
  qed (simp_all add: ImportFromFile_def)
qed

text \<open>The theorem on three accounts (one with a negative balance) and an empty disk.\<close>

theorem export_import_roundtrip_witness:
  "list_all clean_phone (accounts three_accounts) \<and> creatable open_disk ''export.txt'' \<and>
   storable open_disk ''export.txt'' \<and> entry open_disk ''export.txt'' \<noteq> Unreadable \<and>
   fst (ExportToFile three_accounts open_disk ''export.txt'') = None \<and>
   accounts (snd (ImportFromFile empty_service
      (snd (ExportToFile three_accounts open_disk ''export.txt'')) ''export.txt'')) =
     accounts three_accounts \<and>
   length (accounts (snd (ImportFromFile three_accounts
      (snd (ExportToFile three_accounts open_disk ''export.txt'')) ''export.txt''))) = 6"
proof -
  have h: "list_all clean_phone (accounts three_accounts) \<and> creatable open_disk ''export.txt'' \<and>
   storable open_disk ''export.txt'' \<and> entry open_disk ''export.txt'' \<noteq> Unreadable"
    by (simp add: three_accounts_def clean_phone_def open_disk_def)
  from export_import_roundtrip [of three_accounts open_disk "''export.txt''" three_accounts] h
  have r: "fst (ExportToFile three_accounts open_disk ''export.txt'') = None"
    "ImportFromFile empty_service (snd (ExportToFile three_accounts open_disk ''export.txt''))
        ''export.txt'' = (None, empty_service\<lparr>accounts := accounts three_accounts\<rparr>)"
    "ImportFromFile three_accounts (snd (ExportToFile three_accounts open_disk ''export.txt''))
        ''export.txt'' =
      (None, three_accounts\<lparr>accounts := accounts three_accounts @ accounts three_accounts\<rparr>)"
    by blast+
  have l: "length (accounts three_accounts) = 3" by (simp add: three_accounts_def)
  from h r l show ?thesis by simp
qed
subsection \<open>ImportFromFile is not atomic\<close>

text \<open>
  Claim C6. Let the file hold the records \<open>good @ bad # rest\<close>, each ended by \<^verbatim>\<open>|\<close>
  (and possibly an unterminated tail, which the import drops), where every record of
  \<open>good\<close> is well-formed and \<open>bad\<close>, at position \<open>length good\<close>, has an ID that is not an
  integer or a balance field that is not an integer. Then \<^verbatim>\<open>ImportFromFile\<close> returns a
  parse error of \<^verbatim>\<open>strconv\<close>, and the service holds its former accounts followed by the
  accounts of the records of \<open>good\<close>.
\<close>

theorem ImportFromFile_not_atomic:
  "entry fs path = Contents (concat (map (\<lambda>r. r @ ''|'') (good @ bad # rest)) @ tail) \<and>
   list_all no_bar (good @ bad # rest) \<and> no_bar tail \<and>
   list_all well_formed good \<and> malformed bad \<longrightarrow>
     (\<exists>e. is_parse_error e \<and>
        ImportFromFile s fs path =
          (Some e, s\<lparr>accounts := accounts s @ map record_account good\<rparr>))"
proof
  assume h: "entry fs path = Contents (concat (map (\<lambda>r. r @ ''|'') (good @ bad # rest)) @ tail) \<and>
   list_all no_bar (good @ bad # rest) \<and> no_bar tail \<and>
   list_all well_formed good \<and> malformed bad"
  then have c: "entry fs path = Contents (concat (map (\<lambda>r. r @ ''|'') (good @ bad # rest)) @ tail)"
    and nb: "list_all (\<lambda>r. CHR ''|'' \<notin> set r) (good @ bad # rest)"
    and nt: "CHR ''|'' \<notin> set tail"
    and wf: "list_all well_formed good" and mal: "malformed bad"
    by (simp_all add: no_bar_def [abs_def])
  have sp: "split_on (CHR ''|'') (concat (map (\<lambda>r. r @ ''|'') (good @ bad # rest)) @ tail) =
      (good @ bad # rest) @ [tail]"
    by (rule split_on_terminated [OF nb nt])
  from import_malformed [OF mal, of "s\<lparr>accounts := accounts s @ map record_account good\<rparr>" rest]
  obtain e where e: "is_parse_error e"
    "import_records (s\<lparr>accounts := accounts s @ map record_account good\<rparr>) (bad # rest) =
       (Some e, s\<lparr>accounts := accounts s @ map record_account good\<rparr>)"
    by blast
  have "ImportFromFile s fs path = (Some e, s\<lparr>accounts := accounts s @ map record_account good\<rparr>)"
    unfolding ImportFromFile_Contents [OF c] sp butlast_snoc
    using import_well_formed_prefix [OF wf, of s "bad # rest"] e(2) by (simp only:)
  with e(1) show "\<exists>e. is_parse_error e \<and>
        ImportFromFile s fs path =
          (Some e, s\<lparr>accounts := accounts s @ map record_account good\<rparr>)"
    by blast
qed

text \<open>
  The theorem on the file \<^verbatim>\<open>1;a;5|x;b;7|3;c;9|\<close>: the import fails at the second record and
  the account of the first one stays.
\<close>

theorem ImportFromFile_not_atomic_witness:
  "entry (disk_with ''export.txt'' ''1;a;5|x;b;7|3;c;9|'') ''export.txt'' =
     Contents (concat (map (\<lambda>r. r @ ''|'') ([''1;a;5''] @ ''x;b;7'' # [''3;c;9''])) @ '''') \<and>
   list_all no_bar ([''1;a;5''] @ ''x;b;7'' # [''3;c;9'']) \<and> no_bar '''' \<and>
   list_all well_formed [''1;a;5''] \<and> malformed ''x;b;7'' \<and>
   map record_account [''1;a;5''] = [\<lparr>ID = 1, Phone = ''a'', Balance = 5\<rparr>] \<and>
   (\<exists>e. is_parse_error e \<and>
      ImportFromFile empty_service (disk_with ''export.txt'' ''1;a;5|x;b;7|3;c;9|'') ''export.txt'' =
        (Some e, empty_service\<lparr>accounts := [\<lparr>ID = 1, Phone = ''a'', Balance = 5\<rparr>]\<rparr>))"
proof -
  have p: "ParseInt ''1'' = Inr 1" "ParseInt ''5'' = Inr 5" "isl (ParseInt ''x'')"
    by (simp_all add: ParseInt_def digit_val_def)
  have f: "record_fields ''1;a;5'' = [''1'', ''a'', ''5'']" "record_fields ''x;b;7'' = [''x'', ''b'', ''7'']"
    by (simp_all add: record_fields_def)
  have h1: "entry (disk_with ''export.txt'' ''1;a;5|x;b;7|3;c;9|'') ''export.txt'' =
     Contents (concat (map (\<lambda>r. r @ ''|'') ([''1;a;5''] @ ''x;b;7'' # [''3;c;9''])) @ '''')"
    by (simp add: disk_with_def)
  have h2: "list_all no_bar ([''1;a;5''] @ ''x;b;7'' # [''3;c;9'']) \<and> no_bar ''''"
    by (simp add: no_bar_def)
  have h3: "list_all well_formed [''1;a;5'']"
    by (simp add: well_formed_def f p)
  have h4: "malformed ''x;b;7''"
    by (simp add: malformed_def f p)
  have a: "map record_account [''1;a;5''] = [\<lparr>ID = 1, Phone = ''a'', Balance = 5\<rparr>]"
    by (simp add: record_account_def f p)
  from ImportFromFile_not_atomic [of "disk_with ''export.txt'' ''1;a;5|x;b;7|3;c;9|''" "''export.txt''"
      "[''1;a;5'']" "''x;b;7''" "[''3;c;9'']" "''''" empty_service] h1 h2 h3 h4
  have "\<exists>e. is_parse_error e \<and>
      ImportFromFile empty_service (disk_with ''export.txt'' ''1;a;5|x;b;7|3;c;9|'') ''export.txt'' =
        (Some e, empty_service\<lparr>accounts := accounts empty_service
           @ map record_account [''1;a;5'']\<rparr>)"
    by blast
  then have r: "\<exists>e. is_parse_error e \<and>
      ImportFromFile empty_service (disk_with ''export.txt'' ''1;a;5|x;b;7|3;c;9|'') ''export.txt'' =
        (Some e, empty_service\<lparr>accounts := [\<lparr>ID = 1, Phone = ''a'', Balance = 5\<rparr>]\<rparr>)"
    unfolding a by (simp add: empty_service_def)
  from h1 h2 h3 h4 a r show ?thesis by blast
qed
subsection \<open>Export and Import\<close>

text \<open>
  Claim C4, in its last part, fails as stated. \<^verbatim>\<open>Export\<close> leaves the file of an empty
  collection untouched, so a payments dump already in the directory is imported into a
  service that has no payment: 0 payments become 1. And the format does not escape its
  delimiters: one account whose phone is \<^verbatim>\<open>a;0\<close>, a newline, \<^verbatim>\<open>9;b\<close> is dumped as two
  lines, and 1 account becomes 2.
\<close>

theorem export_import_size_counterexample:
  "length (payments one_account) = 0 \<and>
   length (payments (snd (Import one_account (snd (Export one_account stale_disk ''data'')) ''data''))) = 1 \<and>
   length (accounts newline_phone) = 1 \<and>
   length (accounts (snd (Import newline_phone (snd (Export newline_phone open_disk ''data'')) ''data''))) = 2"
proof -
  let ?fs1 = "snd (Export one_account stale_disk ''data'')"
  have e1: "entry ?fs1 ''data/accounts.dump'' = Contents ''1;+1;100\<newline>''"
    "entry ?fs1 ''data/payments.dump'' = Contents ''p;1;5;c;s\<newline>''"
    "entry ?fs1 ''data/favorites.dump'' = Absent"
    by (simp_all add: Export_def one_account_def stale_disk_def disk_with_def open_disk_def
        write_dump_def written_def Let_def Itoa_small Itoa_100)
  have i1: "payments (snd (Import one_account ?fs1 ''data'')) =
      [\<lparr>PaymentID = ''p'', AccountID = 1, Amount = 5, Category = ''c'', Status = ''s''\<rparr>]"
    using e1 by (simp add: Import_def import_dump_def one_account_def Let_def ParseInt_small)
  let ?fs2 = "snd (Export newline_phone open_disk ''data'')"
  have e2: "entry ?fs2 ''data/accounts.dump'' = Contents ''1;a;0\<newline>9;b;0\<newline>''"
    "entry ?fs2 ''data/payments.dump'' = Absent"
    "entry ?fs2 ''data/favorites.dump'' = Absent"
    by (simp_all add: Export_def newline_phone_def open_disk_def
        write_dump_def written_def Let_def Itoa_small)
  have i2: "accounts (snd (Import newline_phone ?fs2 ''data'')) =
      [\<lparr>ID = 1, Phone = ''a'', Balance = 0\<rparr>, \<lparr>ID = 9, Phone = ''b'', Balance = 0\<rparr>]"
    using e2 by (simp add: Import_def import_dump_def newline_phone_def Let_def ParseInt_small)
  have l: "length (payments one_account) = 0" "length (accounts newline_phone) = 1"
    by (simp_all add: one_account_def newline_phone_def)
  from l i1 i2 show ?thesis by simp
qed

text \<open>
  Claim C4, amended. A dump file that is missing is skipped without an error; with all
  three missing \<^verbatim>\<open>Import\<close> returns nil and changes nothing. A line whose fields parse is
  merged by ID: when an account (payment, favorite) with the ID of the line exists, each
  such entity has its phone and balance (account ID, amount, category and status; account
  ID, amount and category) overwritten in place and nothing is appended; otherwise a new
  entity is appended. Consequently, when no phone, payment ID, category, status or
  favorite ID contains \<^verbatim>\<open>;\<close> or a newline, and in the directory the file of every empty
  collection is missing and the file of every other collection can be created, written
  and read, \<^verbatim>\<open>Export\<close> followed by \<^verbatim>\<open>Import\<close> on the same service succeeds and leaves the
  sizes of the three collections unchanged.
\<close>

theorem Import_merges_by_id:
  "(entry fs (dir @ ''/accounts.dump'') = Absent \<and> entry fs (dir @ ''/payments.dump'') = Absent \<and>
    entry fs (dir @ ''/favorites.dump'') = Absent \<longrightarrow> Import s fs dir = (None, s)) \<and>
   import_dump lines s Absent = (None, s) \<and>
   (ParseInt (split_on (CHR '';'') v ! 0) = Inr n \<and> 3 \<le> length (split_on (CHR '';'') v) \<and>
    ParseInt (split_on (CHR '';'') v ! 2) = Inr balance \<longrightarrow>
      import_account_lines s [v] =
        (None, s\<lparr>accounts :=
           (if n \<in> ID ` set (accounts s)
            then map (overwrite_account n (split_on (CHR '';'') v ! 1) balance) (accounts s)
            else accounts s @ [\<lparr>ID = n, Phone = split_on (CHR '';'') v ! 1, Balance = balance\<rparr>])\<rparr>)) \<and>
   (5 \<le> length (split_on (CHR '';'') v) \<and> ParseInt (split_on (CHR '';'') v ! 1) = Inr aid \<and>
    ParseInt (split_on (CHR '';'') v ! 2) = Inr amount \<longrightarrow>
      import_payment_lines s [v] =
        (None, s\<lparr>payments :=
           (if split_on (CHR '';'') v ! 0 \<in> PaymentID ` set (payments s)
            then map (overwrite_payment (split_on (CHR '';'') v ! 0) aid amount
                       (split_on (CHR '';'') v ! 3) (split_on (CHR '';'') v ! 4)) (payments s)
            else payments s @
              [\<lparr>PaymentID = split_on (CHR '';'') v ! 0, AccountID = aid, Amount = amount,
                Category = split_on (CHR '';'') v ! 3, Status = split_on (CHR '';'') v ! 4\<rparr>])\<rparr>)) \<and>
   (4 \<le> length (split_on (CHR '';'') v) \<and> ParseInt (split_on (CHR '';'') v ! 1) = Inr aid \<and>
    ParseInt (split_on (CHR '';'') v ! 2) = Inr amount \<longrightarrow>
      import_favorite_lines s [v] =
        (None, s\<lparr>favorites :=
           (if split_on (CHR '';'') v ! 0 \<in> FavoriteID ` set (favorites s)
            then map (overwrite_favorite (split_on (CHR '';'') v ! 0) aid amount
                       (split_on (CHR '';'') v ! 3)) (favorites s)
            else favorites s @
              [\<lparr>FavoriteID = split_on (CHR '';'') v ! 0, FavAccountID = aid, Name = '''',
                FavAmount = amount, FavCategory = split_on (CHR '';'') v ! 3\<rparr>])\<rparr>)) \<and>
   (list_all clean_account (accounts s) \<and> list_all clean_payment (payments s) \<and>
    list_all clean_favorite (favorites s) \<and>
    dump_ready fs (dir @ ''/accounts.dump'') (accounts s = []) \<and>
    dump_ready fs (dir @ ''/payments.dump'') (payments s = []) \<and>
    dump_ready fs (dir @ ''/favorites.dump'') (favorites s = []) \<longrightarrow>
      fst (Export s fs dir) = None \<and>
      fst (Import s (snd (Export s fs dir)) dir) = None \<and>
      length (accounts (snd (Import s (snd (Export s fs dir)) dir))) = length (accounts s) \<and>
      length (payments (snd (Import s (snd (Export s fs dir)) dir))) = length (payments s) \<and>
      length (favorites (snd (Import s (snd (Export s fs dir)) dir))) = length (favorites s))"
proof (intro conjI impI)
  assume "entry fs (dir @ ''/accounts.dump'') = Absent \<and> entry fs (dir @ ''/payments.dump'') = Absent \<and>
    entry fs (dir @ ''/favorites.dump'') = Absent"
  then show "Import s fs dir = (None, s)" by (simp add: Import_all_absent)
next
  show "import_dump lines s Absent = (None, s)" by (simp add: import_dump_def)
next
  assume "ParseInt (split_on (CHR '';'') v ! 0) = Inr n \<and> 3 \<le> length (split_on (CHR '';'') v) \<and>
    ParseInt (split_on (CHR '';'') v ! 2) = Inr balance"
  then show "import_account_lines s [v] =
        (None, s\<lparr>accounts :=
           (if n \<in> ID ` set (accounts s)
            then map (overwrite_account n (split_on (CHR '';'') v ! 1) balance) (accounts s)
            else accounts s @ [\<lparr>ID = n, Phone = split_on (CHR '';'') v ! 1, Balance = balance\<rparr>])\<rparr>)"
    using import_account_line [of v n balance s "[]"] by simp
next
  assume "5 \<le> length (split_on (CHR '';'') v) \<and> ParseInt (split_on (CHR '';'') v ! 1) = Inr aid \<and>
    ParseInt (split_on (CHR '';'') v ! 2) = Inr amount"
  then show "import_payment_lines s [v] =
        (None, s\<lparr>payments :=
           (if split_on (CHR '';'') v ! 0 \<in> PaymentID ` set (payments s)
            then map (overwrite_payment (split_on (CHR '';'') v ! 0) aid amount
                       (split_on (CHR '';'') v ! 3) (split_on (CHR '';'') v ! 4)) (payments s)
            else payments s @
              [\<lparr>PaymentID = split_on (CHR '';'') v ! 0, AccountID = aid, Amount = amount,
                Category = split_on (CHR '';'') v ! 3, Status = split_on (CHR '';'') v ! 4\<rparr>])\<rparr>)"
    using import_payment_line [of v aid amount s "[]"] by simp
next
  assume "4 \<le> length (split_on (CHR '';'') v) \<and> ParseInt (split_on (CHR '';'') v ! 1) = Inr aid \<and>
    ParseInt (split_on (CHR '';'') v ! 2) = Inr amount"
  then show "import_favorite_lines s [v] =
        (None, s\<lparr>favorites :=
           (if split_on (CHR '';'') v ! 0 \<in> FavoriteID ` set (favorites s)
            then map (overwrite_favorite (split_on (CHR '';'') v ! 0) aid amount
                       (split_on (CHR '';'') v ! 3)) (favorites s)
            else favorites s @
              [\<lparr>FavoriteID = split_on (CHR '';'') v ! 0, FavAccountID = aid, Name = '''',
                FavAmount = amount, FavCategory = split_on (CHR '';'') v ! 3\<rparr>])\<rparr>)"
    using import_favorite_line [of v aid amount s "[]"] by simp
next
  assume h: "list_all clean_account (accounts s) \<and> list_all clean_payment (payments s) \<and>
    list_all clean_favorite (favorites s) \<and>
    dump_ready fs (dir @ ''/accounts.dump'') (accounts s = []) \<and>
    dump_ready fs (dir @ ''/payments.dump'') (payments s = []) \<and>
    dump_ready fs (dir @ ''/favorites.dump'') (favorites s = [])"
  show "fst (Export s fs dir) = None" by (simp add: Export_def Let_def)
  from h Export_Import_sizes [of s fs dir] obtain s'
    where s': "Import s (snd (Export s fs dir)) dir = (None, s')"
      "map ID (accounts s') = map ID (accounts s)"
      "map PaymentID (payments s') = map PaymentID (payments s)"
      "map FavoriteID (favorites s') = map FavoriteID (favorites s)" by blast
  from s'(1) show "fst (Import s (snd (Export s fs dir)) dir) = None" by simp
  from s'(1,2) show "length (accounts (snd (Import s (snd (Export s fs dir)) dir))) = length (accounts s)"
    by (metis length_map snd_conv)
  from s'(1,3) show "length (payments (snd (Import s (snd (Export s fs dir)) dir))) = length (payments s)"
    by (metis length_map snd_conv)
  from s'(1,4) show "length (favorites (snd (Import s (snd (Export s fs dir)) dir))) = length (favorites s)"
    by (metis length_map snd_conv)
qed

text \<open>
  The theorem on the service with one account and one payment, an empty disk, and the
  line \<^verbatim>\<open>1;1;5;c;s\<close>: read as an account it overwrites account 1, read as a payment or as
  a favorite it is appended; the round trip keeps 1 account, 1 payment and 0 favorites.
\<close>

theorem Import_merges_by_id_witness:
  "entry open_disk (''data'' @ ''/accounts.dump'') = Absent \<and>
   entry open_disk (''data'' @ ''/payments.dump'') = Absent \<and>
   entry open_disk (''data'' @ ''/favorites.dump'') = Absent \<and>
   Import paid_service open_disk ''data'' = (None, paid_service) \<and>
   ParseInt (split_on (CHR '';'') ''1;1;5;c;s'' ! 0) = Inr 1 \<and>
   ParseInt (split_on (CHR '';'') ''1;1;5;c;s'' ! 1) = Inr 1 \<and>
   ParseInt (split_on (CHR '';'') ''1;1;5;c;s'' ! 2) = Inr 5 \<and>
   length (split_on (CHR '';'') ''1;1;5;c;s'') = 5 \<and>
   accounts (snd (import_account_lines paid_service [''1;1;5;c;s''])) =
     [\<lparr>ID = 1, Phone = ''1'', Balance = 5\<rparr>] \<and>
   payments (snd (import_payment_lines paid_service [''1;1;5;c;s''])) =
     payments paid_service @
       [\<lparr>PaymentID = ''1'', AccountID = 1, Amount = 5, Category = ''c'', Status = ''s''\<rparr>] \<and>
   favorites (snd (import_favorite_lines paid_service [''1;1;5;c;s''])) =
     [\<lparr>FavoriteID = ''1'', FavAccountID = 1, Name = '''', FavAmount = 5, FavCategory = ''c''\<rparr>] \<and>
   list_all clean_account (accounts paid_service) \<and> list_all clean_payment (payments paid_service) \<and>
   list_all clean_favorite (favorites paid_service) \<and>
   dump_ready open_disk (''data'' @ ''/accounts.dump'') (accounts paid_service = []) \<and>
   dump_ready open_disk (''data'' @ ''/payments.dump'') (payments paid_service = []) \<and>
   dump_ready open_disk (''data'' @ ''/favorites.dump'') (favorites paid_service = []) \<and>
   fst (Import paid_service (snd (Export paid_service open_disk ''data'')) ''data'') = None \<and>
   length (accounts (snd (Import paid_service (snd (Export paid_service open_disk ''data'')) ''data''))) = 1 \<and>
   length (payments (snd (Import paid_service (snd (Export paid_service open_disk ''data'')) ''data''))) = 1 \<and>
   length (favorites (snd (Import paid_service (snd (Export paid_service open_disk ''data'')) ''data''))) = 0"
proof -
  let ?v = "''1;1;5;c;s''"
  have f: "split_on (CHR '';'') ?v = [''1'', ''1'', ''5'', ''c'', ''s'']" by simp
  have h1: "entry open_disk (''data'' @ ''/accounts.dump'') = Absent \<and>
   entry open_disk (''data'' @ ''/payments.dump'') = Absent \<and>
   entry open_disk (''data'' @ ''/favorites.dump'') = Absent"
    by (simp add: open_disk_def)
  have h2: "ParseInt (split_on (CHR '';'') ?v ! 0) = Inr 1 \<and> 3 \<le> length (split_on (CHR '';'') ?v) \<and>
    ParseInt (split_on (CHR '';'') ?v ! 2) = Inr 5"
    unfolding f by (simp add: ParseInt_small)
  have h3: "5 \<le> length (split_on (CHR '';'') ?v) \<and> ParseInt (split_on (CHR '';'') ?v ! 1) = Inr 1 \<and>
    ParseInt (split_on (CHR '';'') ?v ! 2) = Inr 5"
    unfolding f by (simp add: ParseInt_small)
  have h4: "4 \<le> length (split_on (CHR '';'') ?v) \<and> ParseInt (split_on (CHR '';'') ?v ! 1) = Inr 1 \<and>
    ParseInt (split_on (CHR '';'') ?v ! 2) = Inr 5"
    unfolding f by (simp add: ParseInt_small)
  have len: "length (split_on (CHR '';'') ?v) = 5" unfolding f by simp
  have h5: "list_all clean_account (accounts paid_service) \<and>
    list_all clean_payment (payments paid_service) \<and>
    list_all clean_favorite (favorites paid_service) \<and>
    dump_ready open_disk (''data'' @ ''/accounts.dump'') (accounts paid_service = []) \<and>
    dump_ready open_disk (''data'' @ ''/payments.dump'') (payments paid_service = []) \<and>
    dump_ready open_disk (''data'' @ ''/favorites.dump'') (favorites paid_service = [])"
    by (simp add: paid_service_def clean_account_def clean_payment_def clean_field_def
        dump_ready_def open_disk_def PaymentStatusInProgress_def)
  note t = Import_merges_by_id [of open_disk "''data''" paid_service undefined ?v 1 5 1 5]
  from t h1 have r1: "Import paid_service open_disk ''data'' = (None, paid_service)" by blast
  from t h2 have r2: "import_account_lines paid_service [?v] =
        (None, paid_service\<lparr>accounts :=
           (if 1 \<in> ID ` set (accounts paid_service)
            then map (overwrite_account 1 (split_on (CHR '';'') ?v ! 1) 5) (accounts paid_service)
            else accounts paid_service @
              [\<lparr>ID = 1, Phone = split_on (CHR '';'') ?v ! 1, Balance = 5\<rparr>])\<rparr>)" by blast
  from t h3 have r3: "import_payment_lines paid_service [?v] =
        (None, paid_service\<lparr>payments :=
           (if split_on (CHR '';'') ?v ! 0 \<in> PaymentID ` set (payments paid_service)
            then map (overwrite_payment (split_on (CHR '';'') ?v ! 0) 1 5
                       (split_on (CHR '';'') ?v ! 3) (split_on (CHR '';'') ?v ! 4)) (payments paid_service)
            else payments paid_service @
              [\<lparr>PaymentID = split_on (CHR '';'') ?v ! 0, AccountID = 1, Amount = 5,
                Category = split_on (CHR '';'') ?v ! 3, Status = split_on (CHR '';'') ?v ! 4\<rparr>])\<rparr>)"
    by blast
  from t h4 have r4: "import_favorite_lines paid_service [?v] =
        (None, paid_service\<lparr>favorites :=
           (if split_on (CHR '';'') ?v ! 0 \<in> FavoriteID ` set (favorites paid_service)
            then map (overwrite_favorite (split_on (CHR '';'') ?v ! 0) 1 5
                       (split_on (CHR '';'') ?v ! 3)) (favorites paid_service)
            else favorites paid_service @
              [\<lparr>FavoriteID = split_on (CHR '';'') ?v ! 0, FavAccountID = 1, Name = '''',
                FavAmount = 5, FavCategory = split_on (CHR '';'') ?v ! 3\<rparr>])\<rparr>)"
    by blast
  from t h5 have r5:
    "fst (Import paid_service (snd (Export paid_service open_disk ''data'')) ''data'') = None"
    "length (accounts (snd (Import paid_service (snd (Export paid_service open_disk ''data'')) ''data'')))
       = length (accounts paid_service)"
    "length (payments (snd (Import paid_service (snd (Export paid_service open_disk ''data'')) ''data'')))
       = length (payments paid_service)"
    "length (favorites (snd (Import paid_service (snd (Export paid_service open_disk ''data'')) ''data'')))
       = length (favorites paid_service)"
    by blast+
  have a2: "accounts (snd (import_account_lines paid_service [?v])) =
     [\<lparr>ID = 1, Phone = ''1'', Balance = 5\<rparr>]"
    unfolding r2 f by (simp add: paid_service_def overwrite_account_def)
  have a3: "payments (snd (import_payment_lines paid_service [?v])) =
     payments paid_service @
       [\<lparr>PaymentID = ''1'', AccountID = 1, Amount = 5, Category = ''c'', Status = ''s''\<rparr>]"
    unfolding r3 f by (simp add: paid_service_def)
  have a4: "favorites (snd (import_favorite_lines paid_service [?v])) =
     [\<lparr>FavoriteID = ''1'', FavAccountID = 1, Name = '''', FavAmount = 5, FavCategory = ''c''\<rparr>]"
    unfolding r4 f by (simp add: paid_service_def)
  have l: "length (accounts paid_service) = 1" "length (payments paid_service) = 1"
    "length (favorites paid_service) = 0"
    by (simp_all add: paid_service_def)
  from h1 r1 h2 h3 len a2 a3 a4 h5 r5 show ?thesis unfolding l by blast
qed
subsection \<open>Imports and the account counter\<close>

text \<open>
  Claim C10. Neither \<^verbatim>\<open>ImportFromFile\<close> nor \<^verbatim>\<open>Import\<close> changes \<^verbatim>\<open>nextAccountID\<close>, whatever
  the files hold. So when the collection holds an account whose ID is above the counter,
  as an import can leave it, there are registrations of new phones, all successful,
  the last of which returns an account with that same ID while the first one is still in
  the collection: the account IDs are no longer pairwise different.
\<close>

theorem import_leaves_counter:
  "nextAccountID (snd (ImportFromFile s fs path)) = nextAccountID s \<and>
   nextAccountID (snd (Import s fs dir)) = nextAccountID s \<and>
   (x \<in> set (accounts s) \<and> nextAccountID s <s ID x \<longrightarrow>
      (\<exists>phones phone acc s'.
         RegisterAccount (register_all s phones) phone = (Inr acc, s') \<and>
         ID acc = ID x \<and> x \<in> set (accounts (register_all s phones)) \<and>
         \<not> distinct (map ID (accounts s'))))"
proof (intro conjI impI)
  show "nextAccountID (snd (ImportFromFile s fs path)) = nextAccountID s"
    by (rule ImportFromFile_counter)
  show "nextAccountID (snd (Import s fs dir)) = nextAccountID s"
    by (rule Import_counter)
next
  assume h: "x \<in> set (accounts s) \<and> nextAccountID s <s ID x"
  then have "ID x \<noteq> nextAccountID s" by (auto simp: word_sless_alt)
  with h show "\<exists>phones phone acc s'.
         RegisterAccount (register_all s phones) phone = (Inr acc, s') \<and>
         ID acc = ID x \<and> x \<in> set (accounts (register_all s phones)) \<and>
         \<not> distinct (map ID (accounts s'))"
    using duplicate_id_reachable [of x s] by blast
qed

text \<open>
  The theorem on a fresh service that imported the record \<^verbatim>\<open>1;+992000000001;0|\<close>: the
  counter is still 0, and the next registration returns a second account with ID 1.
\<close>

theorem import_leaves_counter_witness:
  "nextAccountID imported_one = 0 \<and>
   \<lparr>ID = 1, Phone = ''+992000000001'', Balance = 0\<rparr> \<in> set (accounts imported_one) \<and>
   nextAccountID imported_one <s ID \<lparr>ID = 1, Phone = ''+992000000001'', Balance = 0\<rparr> \<and>
   (\<exists>phones phone acc s'.
      RegisterAccount (register_all imported_one phones) phone = (Inr acc, s') \<and>
      ID acc = 1 \<and> \<not> distinct (map ID (accounts s'))) \<and>
   RegisterAccount imported_one ''+992000000002'' =
     (Inr \<lparr>ID = 1, Phone = ''+992000000002'', Balance = 0\<rparr>,
      \<lparr>nextAccountID = 1,
       accounts = [\<lparr>ID = 1, Phone = ''+992000000001'', Balance = 0\<rparr>,
                   \<lparr>ID = 1, Phone = ''+992000000002'', Balance = 0\<rparr>],
       payments = [], favorites = []\<rparr>)"
proof -
  let ?x = "\<lparr>ID = 1, Phone = ''+992000000001'', Balance = 0 :: Money\<rparr>"
  have n: "nextAccountID imported_one = 0" by (simp add: imported_one_eq)
  have h: "?x \<in> set (accounts imported_one) \<and> nextAccountID imported_one <s ID ?x"
    by (simp add: imported_one_eq word_sless_alt)
  from import_leaves_counter [of imported_one open_disk "''export.txt''" "''data''" ?x] h
  have e: "\<exists>phones phone acc s'.
      RegisterAccount (register_all imported_one phones) phone = (Inr acc, s') \<and>
      ID acc = ID ?x \<and> ?x \<in> set (accounts (register_all imported_one phones)) \<and>
      \<not> distinct (map ID (accounts s'))"
    by blast
  then have e': "\<exists>phones phone acc s'.
      RegisterAccount (register_all imported_one phones) phone = (Inr acc, s') \<and>
      ID acc = 1 \<and> \<not> distinct (map ID (accounts s'))"
    by auto
  have r: "RegisterAccount imported_one ''+992000000002'' =
     (Inr \<lparr>ID = 1, Phone = ''+992000000002'', Balance = 0\<rparr>,
      \<lparr>nextAccountID = 1,
       accounts = [\<lparr>ID = 1, Phone = ''+992000000001'', Balance = 0\<rparr>,
                   \<lparr>ID = 1, Phone = ''+992000000002'', Balance = 0\<rparr>],
       payments = [], favorites = []\<rparr>)"
    by (simp add: imported_one_eq RegisterAccount_def Let_def)
  from n h e' r show ?thesis by blast
qed

end
